theory Spec2Isabelle
  imports Complex_Main "HOL-Library.Word"
begin

section \<open>Errors thrown by the service\<close>

text \<open>
  The service throws JavaScript errors. An axios failure carries an optional HTTP
  response (\<open>error.response\<close>, with \<open>status\<close>, \<open>data.error.message\<close> and
  \<open>data.message\<close>), an optional
  \<open>code\<close> and a message; the service's own error classes are \<open>ValidationError\<close>,
  \<open>PaymentError\<close> (with its \<open>originalError\<close>) and \<open>InternalServerError\<close>; \<open>Error\<close>
  is the plain \<open>new Error(message)\<close>, and the last three are the errors of the
  JavaScript runtime and of Node's \<open>crypto\<close>.
\<close>

datatype http_response =
  HttpResponse (resp_status: nat) (resp_data_error_message: "string option")
    (resp_data_message: "string option")

datatype exn =
    AxiosError "http_response option" "string option" string
  | ValidationError string
  | PaymentError string exn
  | InternalServerError string "exn option"
  | Error string
  | SyntaxError string
  | TypeError string
  | RangeError string

fun exn_message :: "exn \<Rightarrow> string" where
  "exn_message (AxiosError r c m) = m"
| "exn_message (ValidationError m) = m"
| "exn_message (PaymentError m e) = m"
| "exn_message (InternalServerError m e) = m"
| "exn_message (Error m) = m"
| "exn_message (SyntaxError m) = m"
| "exn_message (TypeError m) = m"
| "exn_message (RangeError m) = m"

text \<open>\<open>axios.isAxiosError(error)\<close>.\<close>

fun isAxiosError :: "exn \<Rightarrow> bool" where
  "isAxiosError (AxiosError r c m) = True"
| "isAxiosError e = False"

text \<open>\<open>error.response?.status\<close>: absent for everything but an axios error with a response.\<close>

fun response_status :: "exn \<Rightarrow> nat option" where
  "response_status (AxiosError (Some r) c m) = Some (resp_status r)"
| "response_status e = None"

text \<open>
  \<open>err.response?.data?.message || err.message\<close>: the gateway's message when it is there
  and not the empty string, the error's own message otherwise.
\<close>

fun errorMessage :: "exn \<Rightarrow> string" where
  "errorMessage (AxiosError (Some (HttpResponse s em (Some m))) c t) = (if m = [] then t else m)"
| "errorMessage e = exn_message e"

text \<open>
  \<open>handleError\<close> of the second service variant, the only place that tells the kinds of
  failure apart: it never returns; the value here is the error it throws. Its message is
  \<open>response?.data?.error?.message || response?.data?.message || error.message\<close>.
\<close>

fun error_code :: "exn \<Rightarrow> string option" where
  "error_code (AxiosError r c m) = c"
| "error_code e = None"

fun handleError_message :: "exn \<Rightarrow> string" where
  "handleError_message (AxiosError (Some (HttpResponse s em dm)) c t) =
     (case em of
        Some m \<Rightarrow> if m = [] then (case dm of Some m' \<Rightarrow> if m' = [] then t else m' | None \<Rightarrow> t)
                  else m
      | None \<Rightarrow> (case dm of Some m' \<Rightarrow> if m' = [] then t else m' | None \<Rightarrow> t))"
| "handleError_message e = exn_message e"

definition handleError :: "exn \<Rightarrow> exn" where
  "handleError error =
     (if isAxiosError error then
        (let errorMessage = handleError_message error
         in if response_status error = Some 400 then ValidationError errorMessage
            else if response_status error = Some 401 then
              Error ''Authentication failed. Please check your API credentials.''
            else if response_status error = Some 403 then
              Error ''Insufficient permissions to perform this action.''
            else if response_status error = Some 404 then
              Error ''The requested resource was not found.''
            else if response_status error = Some 409 then
              Error ''A conflict occurred while processing your request.''
            else if response_status error = Some 422 then
              ValidationError (''Validation failed: '' @ errorMessage)
            else if response_status error = Some 429 then
              Error ''Rate limit exceeded. Please try again later.''
            else if (case response_status error of None \<Rightarrow> False | Some s \<Rightarrow> 500 \<le> s) then
              InternalServerError ''An internal server error occurred.'' (Some error)
            else if error_code error = Some ''ECONNABORTED'' then
              Error ''Request timed out. Please try again.''
            else if error_code error = Some ''ENOTFOUND'' then
              Error (''Unable to connect to the payment service. ''
                     @ ''Please check your network connection.'')
            else PaymentError ''An unexpected error occurred'' error)
      else PaymentError ''An unexpected error occurred'' error)"

section \<open>The retry executor\<close>

text \<open>
  An operation is an effectful thunk \<open>() => Promise<T>\<close>: it reads and changes the world
  (the gateway, the network) and either resolves with a value or rejects with an error.
  The executor's run records the world, how often the operation was invoked and the
  delays it slept, in order (milliseconds).
\<close>

type_synonym ('w, 'a) operation = "'w \<Rightarrow> (exn + 'a) \<times> 'w"

record 'w run =
  world :: 'w
  invocations :: nat
  sleeps :: "nat list"

definition MAX_RETRIES :: nat where
  "MAX_RETRIES = 3"

definition INITIAL_RETRY_DELAY :: nat where
  "INITIAL_RETRY_DELAY = 1000"

definition start_run :: "'w \<Rightarrow> 'w run" where
  "start_run w = \<lparr>world = w, invocations = 0, sleeps = []\<rparr>"

text \<open>
  \<open>executeWithRetry\<close>, the loop \<open>for (attempt = 0; attempt <= retries; attempt++)\<close>:
  a resolved operation returns at once; a rejected one is rethrown when
  \<open>attempt === retries\<close>, and otherwise the executor sleeps
  \<open>INITIAL_RETRY_DELAY * 2^attempt\<close> and goes round again. The error is never inspected.
  The \<open>throw\<close> after the loop is the last branch.
\<close>

function executeWithRetry_loop ::
  "('w, 'a) operation \<Rightarrow> nat \<Rightarrow> nat \<Rightarrow> 'w run \<Rightarrow> (exn + 'a) \<times> 'w run" where
  "executeWithRetry_loop operation retries attempt st =
     (if attempt \<le> retries then
        (case operation (world st) of
           (Inr v, w') \<Rightarrow>
             (Inr v, st\<lparr>world := w', invocations := invocations st + 1\<rparr>)
         | (Inl error, w') \<Rightarrow>
             (if attempt = retries then
                (Inl error, st\<lparr>world := w', invocations := invocations st + 1\<rparr>)
              else
                executeWithRetry_loop operation retries (attempt + 1)
                  (st\<lparr>world := w', invocations := invocations st + 1,
                      sleeps := sleeps st @ [INITIAL_RETRY_DELAY * 2 ^ attempt]\<rparr>)))
      else (Inl (Error ''All retry attempts exhausted''), st))"
  by pat_completeness auto
termination
  by (relation "measure (\<lambda>(operation, retries, attempt, st). Suc retries - attempt)") auto

definition executeWithRetry ::
  "('w, 'a) operation \<Rightarrow> nat \<Rightarrow> 'w run \<Rightarrow> (exn + 'a) \<times> 'w run" where
  "executeWithRetry operation retries st = executeWithRetry_loop operation retries 0 st"

text \<open>A gateway that answers every request with the same HTTP status.\<close>

definition http_failure :: "nat \<Rightarrow> exn" where
  "http_failure s =
     AxiosError (Some (HttpResponse s None None)) (Some ''ERR_BAD_REQUEST'')
       ''Request failed''"

definition always_rejects :: "exn \<Rightarrow> (nat, string) operation" where
  "always_rejects e n = (Inl e, n + 1)"

text \<open>An operation that rejects with HTTP 429 on its first two calls and then resolves.\<close>

definition rate_limited_twice :: "(nat, string) operation" where
  "rate_limited_twice n = (if n < 2 then Inl (http_failure 429) else Inr ''ok'', n + 1)"

section \<open>Status mapping\<close>

datatype PaymentStatus = PENDING | SUCCESS | FAILED

text \<open>
  \<open>String.prototype.toLowerCase\<close> on the letters \<open>A\<close> to \<open>Z\<close>. A character outside
  ASCII is left as it is: JavaScript maps none of them to one of the ASCII letters of the
  four words the switch below compares with, so the comparison is not affected.
\<close>

definition toLowerCase_char :: "char \<Rightarrow> char" where
  "toLowerCase_char c =
     (case map_of (zip ''ABCDEFGHIJKLMNOPQRSTUVWXYZ'' ''abcdefghijklmnopqrstuvwxyz'') c of
        None \<Rightarrow> c
      | Some l \<Rightarrow> l)"

definition toLowerCase :: "string \<Rightarrow> string" where
  "toLowerCase s = map toLowerCase_char s"

text \<open>
  \<open>handleRexpayResponseStatus\<close> of the service: \<open>switch (status?.toLowerCase())\<close>. A
  missing status (\<open>undefined\<close>) reaches the \<open>default\<close> branch.
\<close>

definition handleRexpayResponseStatus :: "string option \<Rightarrow> PaymentStatus" where
  "handleRexpayResponseStatus status =
     (case map_option toLowerCase status of
        None \<Rightarrow> PENDING
      | Some s \<Rightarrow>
          if s = ''success'' \<or> s = ''completed'' then SUCCESS
          else if s = ''failed'' \<or> s = ''error'' then FAILED
          else if s = ''pending'' \<or> s = ''processing'' then PENDING
          else PENDING)"

text \<open>
  The variant in \<open>helpers.ts\<close> takes the enum \<open>RexpayStatus\<close> (whose values are the
  upper-case strings) and compares without changing the case.
\<close>

datatype RexpayStatus = Rexpay_PENDING | Rexpay_SUCCESS | Rexpay_FAILED | Rexpay_PROCESSING

fun handleRexpayResponseStatus_helpers :: "RexpayStatus \<Rightarrow> PaymentStatus" where
  "handleRexpayResponseStatus_helpers Rexpay_SUCCESS = SUCCESS"
| "handleRexpayResponseStatus_helpers Rexpay_FAILED = FAILED"
| "handleRexpayResponseStatus_helpers Rexpay_PENDING = PENDING"
| "handleRexpayResponseStatus_helpers Rexpay_PROCESSING = PENDING"

section \<open>Subaccount metrics\<close>

text \<open>
  \<open>SubaccountMetrics\<close>. The counters are JavaScript numbers that only ever count up from
  zero; the success rate is the quotient of two counters, taken here as an exact rational
  (the source computes it in double precision). \<open>lastUsed\<close> is a \<open>Date.now()\<close> timestamp
  in milliseconds.
\<close>

record SubaccountMetrics =
  uuid :: string
  successRate :: rat
  lastUsed :: int
  totalTransactions :: nat
  successfulTransactions :: nat

text \<open>
  The \<open>Map<string, SubaccountMetrics>\<close> of the service, in insertion order (the order
  \<open>Map.prototype.values\<close> iterates in). \<open>Map_set\<close> replaces the value of a key where it
  stands and appends a new key at the end; \<open>map_of\<close> is \<open>Map.prototype.get\<close>.
\<close>

type_synonym metrics_map = "(string \<times> SubaccountMetrics) list"

fun Map_set :: "'k \<Rightarrow> 'v \<Rightarrow> ('k \<times> 'v) list \<Rightarrow> ('k \<times> 'v) list" where
  "Map_set k v [] = [(k, v)]"
| "Map_set k v ((k', v') # kvs) =
     (if k' = k then (k, v) # kvs else (k', v') # Map_set k v kvs)"

text \<open>\<open>updateSubaccountMetrics\<close> of the service: nothing happens for an unknown id.\<close>

definition updateSubaccountMetrics :: "string \<Rightarrow> bool \<Rightarrow> metrics_map \<Rightarrow> metrics_map" where
  "updateSubaccountMetrics subaccountId success ms =
     (case map_of ms subaccountId of
        None \<Rightarrow> ms
      | Some metrics \<Rightarrow>
          (let total = totalTransactions metrics + 1;
               successful =
                 (if success then successfulTransactions metrics + 1
                  else successfulTransactions metrics)
           in Map_set subaccountId
                (metrics\<lparr>totalTransactions := total,
                         successfulTransactions := successful,
                         successRate := of_nat successful / of_nat total\<rparr>) ms))"

text \<open>A sequence of \<open>updateSubaccountMetrics\<close> calls on one id, oldest outcome first.\<close>

fun recordOutcomes :: "string \<Rightarrow> bool list \<Rightarrow> metrics_map \<Rightarrow> metrics_map" where
  "recordOutcomes subaccountId [] ms = ms"
| "recordOutcomes subaccountId (success # rest) ms =
     recordOutcomes subaccountId rest (updateSubaccountMetrics subaccountId success ms)"

text \<open>\<open>adjustSubaccountMetrics\<close>: the rate clamped to \<open>[0, 1]\<close>, for a known id.\<close>

definition adjustSubaccountMetrics :: "string \<Rightarrow> rat \<Rightarrow> metrics_map \<Rightarrow> metrics_map" where
  "adjustSubaccountMetrics subaccountId rate ms =
     (case map_of ms subaccountId of
        None \<Rightarrow> ms
      | Some metrics \<Rightarrow>
          Map_set subaccountId (metrics\<lparr>successRate := max 0 (min 1 rate)\<rparr>) ms)"

text \<open>The metrics a subaccount gets when \<open>selectOptimalSubaccount\<close> first sees it.\<close>

definition new_metrics :: "string \<Rightarrow> SubaccountMetrics" where
  "new_metrics u =
     \<lparr>uuid = u, successRate = 1, lastUsed = 0, totalTransactions = 0,
      successfulTransactions = 0\<rparr>"

definition initialize_metrics :: "string list \<Rightarrow> metrics_map \<Rightarrow> metrics_map" where
  "initialize_metrics subaccounts ms =
     fold (\<lambda>sub m. if map_of m sub = None then Map_set sub (new_metrics sub) m else m)
       subaccounts ms"

text \<open>No entry counts more successful transactions than transactions.\<close>

definition counts_ok :: "metrics_map \<Rightarrow> bool" where
  "counts_ok ms = list_all (\<lambda>(k, m). successfulTransactions m \<le> totalTransactions m) ms"

section \<open>Subaccount selection\<close>

text \<open>
  \<open>Array.prototype.sort\<close> with a comparator: a stable sort; \<open>cmp a b \<le> 0\<close> keeps \<open>a\<close>
  before \<open>b\<close>.
\<close>

fun insert_sorted :: "('a \<Rightarrow> 'a \<Rightarrow> rat) \<Rightarrow> 'a \<Rightarrow> 'a list \<Rightarrow> 'a list" where
  "insert_sorted cmp a [] = [a]"
| "insert_sorted cmp a (b # bs) =
     (if cmp a b \<le> 0 then a # b # bs else b # insert_sorted cmp a bs)"

definition Array_sort :: "('a \<Rightarrow> 'a \<Rightarrow> rat) \<Rightarrow> 'a list \<Rightarrow> 'a list" where
  "Array_sort cmp xs = foldr (insert_sorted cmp) xs []"

text \<open>
  The score of \<open>selectOptimalSubaccount\<close>:
  \<open>successRate * 0.7 + (1 / (now - lastUsed + 1)) * 0.3\<close>. (Where \<open>lastUsed = now + 1\<close>
  JavaScript divides by zero and gets \<open>Infinity\<close>; the statements below that depend on
  the score take \<open>lastUsed \<le> now\<close>.)
\<close>

definition weightedScore :: "int \<Rightarrow> SubaccountMetrics \<Rightarrow> rat" where
  "weightedScore now a =
     successRate a * (7 / 10) + (1 / of_int (now - lastUsed a + 1)) * (3 / 10)"

text \<open>
  \<open>selectOptimalSubaccount(subaccounts)\<close> at time \<open>now\<close>; \<open>subaccounts\<close> are the uuids of
  the fetched subaccounts. It registers the new ones, sorts the metrics of the fetched
  ones by descending score, takes the first and stamps it with \<open>now\<close>. With no fetched
  subaccount \<open>sortedSubaccounts[0]\<close> is \<open>undefined\<close> and reading its \<open>uuid\<close> throws.
\<close>

definition selectOptimalSubaccount ::
  "int \<Rightarrow> string list \<Rightarrow> metrics_map \<Rightarrow> (exn + string) \<times> metrics_map" where
  "selectOptimalSubaccount now subaccounts ms0 =
     (let ms = initialize_metrics subaccounts ms0;
          sortedSubaccounts =
            Array_sort (\<lambda>a b. weightedScore now b - weightedScore now a)
              (filter (\<lambda>metrics. uuid metrics \<in> set subaccounts) (map snd ms))
      in case sortedSubaccounts of
           [] \<Rightarrow> (Inl (TypeError ''Cannot read properties of undefined''), ms)
         | selected # rest \<Rightarrow>
             (Inr (uuid selected),
              Map_set (uuid selected) (selected\<lparr>lastUsed := now\<rparr>) ms))"

text \<open>The selection part of the configuration of the second service variant.\<close>

record SubaccountSelectionConfig =
  successRateWeight :: rat
  recencyWeight :: rat
  minSuccessRate :: rat
  maxRetries :: nat
  initialRetryDelay :: nat

definition defaultConfig :: SubaccountSelectionConfig where
  "defaultConfig =
     \<lparr>successRateWeight = 7 / 10, recencyWeight = 3 / 10, minSuccessRate = 8 / 10,
      maxRetries = 3, initialRetryDelay = 1000\<rparr>"

text \<open>
  \<open>recency = 1 - Math.min(1, (now - lastUsed) / (30 * 24 * 60 * 60 * 1000))\<close> and the
  score of \<open>selectBestSubaccount\<close>.
\<close>

definition recency :: "int \<Rightarrow> SubaccountMetrics \<Rightarrow> rat" where
  "recency now metrics =
     1 - min 1 (of_int (now - lastUsed metrics) / of_int (30 * 24 * 60 * 60 * 1000))"

definition score :: "SubaccountSelectionConfig \<Rightarrow> int \<Rightarrow> SubaccountMetrics \<Rightarrow> rat" where
  "score cfg now metrics =
     successRate metrics * successRateWeight cfg + recency now metrics * recencyWeight cfg"

text \<open>
  The loop of \<open>selectBestSubaccount\<close> over the entries of the map, carrying
  \<open>(bestScore, bestSubaccount)\<close>: an entry below the minimum success rate is skipped,
  and an entry replaces the best one only with a strictly higher score.
\<close>

fun selectBest_loop ::
  "SubaccountSelectionConfig \<Rightarrow> int \<Rightarrow> metrics_map \<Rightarrow> rat \<times> string option
    \<Rightarrow> rat \<times> string option" where
  "selectBest_loop cfg now [] best = best"
| "selectBest_loop cfg now ((sid, metrics) # rest) (bestScore, bestSubaccount) =
     (if successRate metrics < minSuccessRate cfg then
        selectBest_loop cfg now rest (bestScore, bestSubaccount)
      else if score cfg now metrics > bestScore then
        selectBest_loop cfg now rest (score cfg now metrics, Some sid)
      else selectBest_loop cfg now rest (bestScore, bestSubaccount))"

definition selectBestSubaccount ::
  "SubaccountSelectionConfig \<Rightarrow> int \<Rightarrow> metrics_map \<Rightarrow> string option" where
  "selectBestSubaccount cfg now ms =
     (if ms = [] then None else snd (selectBest_loop cfg now ms (- 1, None)))"

section \<open>The encryption helpers\<close>

text \<open>
  Strings are JavaScript strings whose code units are below 256, one \<open>char\<close> per code
  unit; a \<open>Buffer\<close> is a list of bytes. \<open>Buffer.from(string)\<close> and the \<open>'utf8'\<close> input
  encoding write one byte for a code unit below 128 and two bytes for the others.
\<close>

type_synonym byte = "8 word"

definition utf8_char :: "char \<Rightarrow> byte list" where
  "utf8_char c =
     (let n = (of_char c :: nat)
      in if n < 128 then [of_nat n] else [of_nat (192 + n div 64), of_nat (128 + n mod 64)])"

definition utf8_encode :: "string \<Rightarrow> byte list" where
  "utf8_encode s = concat (map utf8_char s)"

text \<open>\<open>digest('hex')\<close>: two lower-case hexadecimal digits for every byte.\<close>

definition hex_digit :: "nat \<Rightarrow> char" where
  "hex_digit d = (if d < 10 then char_of (48 + d) else char_of (87 + d))"

definition hex_byte :: "byte \<Rightarrow> string" where
  "hex_byte b = [hex_digit (unat b div 16), hex_digit (unat b mod 16)]"

definition hex :: "byte list \<Rightarrow> string" where
  "hex bs = concat (map hex_byte bs)"

text \<open>\<open>String.prototype.padEnd\<close> with a one-character filler; \<open>substring(0, n)\<close> is \<open>take n\<close>.\<close>

definition padEnd :: "nat \<Rightarrow> char \<Rightarrow> string \<Rightarrow> string" where
  "padEnd n c s = s @ replicate (n - length s) c"

text \<open>
  The primitives of Node's \<open>crypto\<close> and \<open>Buffer\<close> that the helpers call and this
  repository does not implement: SHA-256, AES-256 in CBC mode with PKCS#7 padding (the
  deciphering fails on a bad padding), base64 and the decoding of UTF-8.
\<close>

record crypto =
  sha256 :: "byte list \<Rightarrow> byte list"
  aes_256_cbc_encrypt :: "byte list \<Rightarrow> byte list \<Rightarrow> byte list \<Rightarrow> byte list"
  aes_256_cbc_decrypt :: "byte list \<Rightarrow> byte list \<Rightarrow> byte list \<Rightarrow> byte list option"
  base64_encode :: "byte list \<Rightarrow> string"
  base64_decode :: "string \<Rightarrow> byte list"
  utf8_decode :: "byte list \<Rightarrow> string"

text \<open>
  \<open>crypto.createCipheriv('aes-256-cbc', key, iv)\<close> (and \<open>createDecipheriv\<close>) throws
  unless the key has 32 bytes and the initialization vector 16.
\<close>

definition createCipheriv :: "byte list \<Rightarrow> byte list \<Rightarrow> exn + byte list \<times> byte list" where
  "createCipheriv key iv =
     (if length key = 32 then
        (if length iv = 16 then Inr (key, iv)
         else Inl (TypeError ''Invalid initialization vector''))
      else Inl (RangeError ''Invalid key length''))"

text \<open>
  \<open>formattedKey\<close>: the first 32 characters of the hexadecimal SHA-256 digest of the key,
  as a buffer. \<open>formattedIV\<close>: the IV padded with \<open>'0'\<close> to 16 characters and cut to 16
  characters, as a buffer.
\<close>

definition formattedKey :: "crypto \<Rightarrow> string \<Rightarrow> byte list" where
  "formattedKey L key = utf8_encode (take 32 (hex (sha256 L (utf8_encode key))))"

definition formattedIV :: "string \<Rightarrow> byte list" where
  "formattedIV iv = utf8_encode (take 16 (padEnd 16 CHR ''0'' iv))"

text \<open>
  \<open>encrypt(text, key, iv)\<close> and \<open>decrypt(encrypted, key, iv)\<close> of
  \<open>utils/encryption.ts\<close>: whatever is thrown inside the \<open>try\<close> is replaced by
  \<open>Error('Failed to encrypt data')\<close>, respectively \<open>Error('Failed to decrypt data')\<close>.
\<close>

definition encrypt :: "crypto \<Rightarrow> string \<Rightarrow> string \<Rightarrow> string \<Rightarrow> exn + string" where
  "encrypt L text key iv =
     (case createCipheriv (formattedKey L key) (formattedIV iv) of
        Inl error \<Rightarrow> Inl (Error ''Failed to encrypt data'')
      | Inr (k, i) \<Rightarrow>
          Inr (base64_encode L (aes_256_cbc_encrypt L k i (utf8_encode text))))"

definition decrypt :: "crypto \<Rightarrow> string \<Rightarrow> string \<Rightarrow> string \<Rightarrow> exn + string" where
  "decrypt L encrypted key iv =
     (case createCipheriv (formattedKey L key) (formattedIV iv) of
        Inl error \<Rightarrow> Inl (Error ''Failed to decrypt data'')
      | Inr (k, i) \<Rightarrow>
          (case aes_256_cbc_decrypt L k i (base64_decode L encrypted) of
             None \<Rightarrow> Inl (Error ''Failed to decrypt data'')
           | Some plain \<Rightarrow> Inr (utf8_decode L plain)))"

text \<open>\<open>decrypt(encrypt(s, key, iv), key, iv)\<close>.\<close>

definition decrypt_encrypt :: "crypto \<Rightarrow> string \<Rightarrow> string \<Rightarrow> string \<Rightarrow> exn + string" where
  "decrypt_encrypt L s key iv =
     (case encrypt L s key iv of
        Inl error \<Rightarrow> Inl error
      | Inr encrypted \<Rightarrow> decrypt L encrypted key iv)"

text \<open>
  What the helpers rely on: the digest has 32 bytes, deciphering undoes enciphering under
  a key and an IV of the right sizes, and the two decoders undo their encoders.
\<close>

definition crypto_laws :: "crypto \<Rightarrow> bool" where
  "crypto_laws L =
     ((\<forall>bs. length (sha256 L bs) = 32) \<and>
      (\<forall>k i p. length k = 32 \<and> length i = 16 \<longrightarrow>
           aes_256_cbc_decrypt L k i (aes_256_cbc_encrypt L k i p) = Some p) \<and>
      (\<forall>bs. base64_decode L (base64_encode L bs) = bs) \<and>
      (\<forall>s. utf8_decode L (utf8_encode s) = s))"

text \<open>
  A stand-in for the primitives that satisfies these laws, to run the helpers on: no
  enciphering, one character for a byte as base64, and a decoder of UTF-8 for the code
  units below 256.
\<close>

fun toy_utf8_decode :: "byte list \<Rightarrow> string" where
  "toy_utf8_decode [] = []"
| "toy_utf8_decode (b1 # bs) =
     (if unat b1 < 128 then char_of (unat b1) # toy_utf8_decode bs
      else (case bs of
              [] \<Rightarrow> []
            | b2 # bs' \<Rightarrow>
                char_of ((unat b1 - 192) * 64 + (unat b2 - 128)) # toy_utf8_decode bs'))"

definition toy_crypto :: crypto where
  "toy_crypto =
     \<lparr>sha256 = (\<lambda>bs. replicate 32 (of_nat (length bs))),
      aes_256_cbc_encrypt = (\<lambda>k i p. p),
      aes_256_cbc_decrypt = (\<lambda>k i c. Some c),
      base64_encode = map (\<lambda>b. char_of (unat b)),
      base64_decode = map (\<lambda>c. of_nat (of_char c)),
      utf8_decode = toy_utf8_decode\<rparr>"

section \<open>The payment operations\<close>

text \<open>
  The fields of \<open>Payment\<close> and of its card instrument that \<open>authorizePayment\<close> and
  \<open>retrievePayment\<close> read. An optional field is an \<open>option\<close>.
\<close>

record Card =
  number :: string
  security_code :: string
  expiry_month :: string
  expiry_year :: string
  name :: "string option"
  encrypted :: "string option"

record Payment =
  reference :: string
  amount :: rat
  currency :: string
  card :: Card
  provider_reference :: "string option"

record CardPaymentOutput =
  transactionId :: string
  status :: PaymentStatus
  message :: string
  gatewayRecommendation :: "string option"
  gatewayCode :: "string option"
  acquirerMessage :: "string option"

text \<open>The part of the configuration the two operations read.\<close>

record RexpayConfig =
  encryption_key :: string
  encryption_iv :: string

text \<open>
  The service's state: the network with the executor's trace, the metrics map, and the
  calls made on the metrics sink (\<open>recordSuccess\<close>, \<open>recordError\<close>; the durations, which
  come from the clock, are left out).
\<close>

datatype metric_event = RecordSuccess string | RecordError string

record 'w service =
  network :: "'w run"
  subaccountMetrics :: metrics_map
  telemetry :: "metric_event list"

text \<open>\<open>a || b\<close> on an optional string: \<open>undefined\<close> and the empty string are falsy.\<close>

definition or_else :: "string option \<Rightarrow> string \<Rightarrow> string" where
  "or_else a b = (case a of None \<Rightarrow> b | Some s \<Rightarrow> if s = [] then b else s)"

text \<open>\<open>!a\<close> on an optional string.\<close>

definition falsy :: "string option \<Rightarrow> bool" where
  "falsy a = (case a of None \<Rightarrow> True | Some s \<Rightarrow> s = [])"

text \<open>
  \<open>formatAmount\<close>: \<open>Math.round((amount / 100) * 100) / 100\<close>, with \<open>Math.round\<close> rounding
  a half upwards.
\<close>

definition Math_round :: "rat \<Rightarrow> int" where
  "Math_round x = \<lfloor>x + 1 / 2\<rfloor>"

definition formatAmount :: "rat \<Rightarrow> rat" where
  "formatAmount a = of_int (Math_round ((a / 100) * 100)) / 100"

subsection \<open>authorizePayment\<close>

record charge_payload =
  transaction_id :: "string option"
  payload_amount :: rat
  payload_currency :: string
  subaccount_id :: "string option"

record RexpayChargeResponse =
  charge_message :: "string option"
  charge_reference :: "string option"
  charge_status :: "string option"

text \<open>
  The body of the \<open>try\<close> of \<open>authorizePayment\<close>. \<open>parse\<close> is \<open>JSON.parse\<close> followed by
  the reading of \<open>subaccount_id\<close>; \<open>post\<close> is the request to \<open>/v2/charge\<close> with the
  payload. The first \<open>throw\<close> stands before everything else.
\<close>

definition authorizePayment_try ::
  "crypto \<Rightarrow> RexpayConfig \<Rightarrow> (string \<Rightarrow> exn + string option)
    \<Rightarrow> (charge_payload \<Rightarrow> ('w, RexpayChargeResponse) operation)
    \<Rightarrow> Payment \<Rightarrow> 'w service \<Rightarrow> (exn + CardPaymentOutput) \<times> 'w service" where
  "authorizePayment_try L cfg parse post payment svc =
     (let cardDetails = card payment
      in if falsy (encrypted cardDetails) then
           (Inl (ValidationError ''No encrypted card details found''), svc)
         else
           (case decrypt L (or_else (encrypted cardDetails) [])
                   (encryption_key cfg) (encryption_iv cfg) of
              Inl error \<Rightarrow> (Inl error, svc)
            | Inr plain \<Rightarrow>
                (case parse plain of
                   Inl error \<Rightarrow> (Inl error, svc)
                 | Inr subaccountId \<Rightarrow>
                     (let payload =
                            \<lparr>transaction_id = provider_reference payment,
                             payload_amount = formatAmount (amount payment),
                             payload_currency = currency payment,
                             subaccount_id = subaccountId\<rparr>
                      in case executeWithRetry (post payload) MAX_RETRIES (network svc) of
                           (Inl error, net) \<Rightarrow> (Inl error, svc\<lparr>network := net\<rparr>)
                         | (Inr chargeResponse, net) \<Rightarrow>
                             (let mapped =
                                    handleRexpayResponseStatus (charge_status chargeResponse);
                                  ms = (if falsy subaccountId then subaccountMetrics svc
                                        else updateSubaccountMetrics (or_else subaccountId [])
                                               (mapped \<noteq> FAILED) (subaccountMetrics svc))
                              in (Inr \<lparr>transactionId =
                                         or_else (charge_reference chargeResponse)
                                           (reference payment),
                                       status = mapped,
                                       message =
                                         or_else (charge_message chargeResponse)
                                           ''Payment authorized'',
                                       gatewayRecommendation = None,
                                       gatewayCode = None,
                                       acquirerMessage = None\<rparr>,
                                  svc\<lparr>network := net, subaccountMetrics := ms,
                                      telemetry :=
                                        telemetry svc
                                          @ [RecordSuccess ''authorize_payment'']\<rparr>))))))"

text \<open>
  \<open>authorizePayment\<close>: the \<open>catch\<close> records the error and wraps whatever was thrown,
  the validation error included, in a \<open>PaymentError\<close>.
\<close>

definition authorizePayment ::
  "crypto \<Rightarrow> RexpayConfig \<Rightarrow> (string \<Rightarrow> exn + string option)
    \<Rightarrow> (charge_payload \<Rightarrow> ('w, RexpayChargeResponse) operation)
    \<Rightarrow> Payment \<Rightarrow> 'w service \<Rightarrow> (exn + CardPaymentOutput) \<times> 'w service" where
  "authorizePayment L cfg parse post payment svc =
     (case authorizePayment_try L cfg parse post payment svc of
        (Inr output, svc') \<Rightarrow> (Inr output, svc')
      | (Inl error, svc') \<Rightarrow>
          (Inl (PaymentError (''Failed to authorize payment: '' @ errorMessage error) error),
           svc'\<lparr>telemetry := telemetry svc' @ [RecordError ''authorize_payment'']\<rparr>))"

subsection \<open>retrievePayment\<close>

record payment_data =
  data_status :: "string option"
  gateway_response :: "string option"

record RexpayGetPaymentResponse =
  get_message :: "string option"
  get_data :: "payment_data option"

text \<open>
  The parsed \<open>gateway_response\<close>: \<open>JSON.parse\<close> may yield \<open>null\<close>, or an object whose
  \<open>response\<close> may be missing, as may each of its three fields.
\<close>

record gateway_fields =
  gw_gatewayRecommendation :: "string option"
  gw_gatewayCode :: "string option"
  gw_acquirerMessage :: "string option"

datatype RexpayGatewayResponse = JsonNull | GatewayResponse "gateway_fields option"

definition default_gatewayResponse :: RexpayGatewayResponse where
  "default_gatewayResponse =
     GatewayResponse
       (Some \<lparr>gw_gatewayRecommendation = Some [], gw_gatewayCode = Some [],
              gw_acquirerMessage = Some []\<rparr>)"

text \<open>
  The body of the \<open>try\<close> of \<open>retrievePayment\<close>. \<open>get\<close> is the request to
  \<open>/v3/payments/{paymentId}\<close>; a \<open>gateway_response\<close> that does not parse leaves the
  default in place.
\<close>

definition retrievePayment_try ::
  "(string \<Rightarrow> ('w, RexpayGetPaymentResponse) operation)
    \<Rightarrow> (string \<Rightarrow> exn + RexpayGatewayResponse)
    \<Rightarrow> string \<Rightarrow> 'w service \<Rightarrow> (exn + CardPaymentOutput) \<times> 'w service" where
  "retrievePayment_try get parse paymentId svc =
     (if paymentId = [] then (Inl (ValidationError ''Payment ID is required''), svc)
      else
        (case executeWithRetry (get paymentId) MAX_RETRIES (network svc) of
           (Inl error, net) \<Rightarrow> (Inl error, svc\<lparr>network := net\<rparr>)
         | (Inr data, net) \<Rightarrow>
             (let blob = (case get_data data of None \<Rightarrow> None
                          | Some d \<Rightarrow> gateway_response d);
                  gatewayResponse =
                    (if falsy blob then default_gatewayResponse
                     else (case parse (or_else blob []) of
                             Inl parseError \<Rightarrow> default_gatewayResponse
                           | Inr parsed \<Rightarrow> parsed));
                  svc' = svc\<lparr>network := net,
                             telemetry := telemetry svc @ [RecordSuccess ''retrieve_payment'']\<rparr>
              in case gatewayResponse of
                   JsonNull \<Rightarrow>
                     (Inl (TypeError ''Cannot read properties of null''), svc')
                 | GatewayResponse response \<Rightarrow>
                     (Inr \<lparr>transactionId = paymentId,
                           status =
                             handleRexpayResponseStatus
                               (case get_data data of None \<Rightarrow> None
                                | Some d \<Rightarrow> data_status d),
                           message = or_else (get_message data) ''Payment retrieved'',
                           gatewayRecommendation =
                             (case response of None \<Rightarrow> None
                              | Some r \<Rightarrow> gw_gatewayRecommendation r),
                           gatewayCode =
                             (case response of None \<Rightarrow> None | Some r \<Rightarrow> gw_gatewayCode r),
                           acquirerMessage =
                             (case response of None \<Rightarrow> None
                              | Some r \<Rightarrow> gw_acquirerMessage r)\<rparr>,
                      svc'))))"

fun isValidationError :: "exn \<Rightarrow> bool" where
  "isValidationError (ValidationError m) = True"
| "isValidationError e = False"

definition payment_not_found :: "string \<Rightarrow> CardPaymentOutput" where
  "payment_not_found paymentId =
     \<lparr>transactionId = paymentId, status = FAILED, message = ''Payment not found'',
      gatewayRecommendation = None, gatewayCode = None, acquirerMessage = None\<rparr>"

text \<open>
  \<open>retrievePayment\<close>: the \<open>catch\<close> rethrows a validation error, turns an axios error
  with status 404 into a result, and wraps every other error in a \<open>PaymentError\<close>.
\<close>

definition retrievePayment ::
  "(string \<Rightarrow> ('w, RexpayGetPaymentResponse) operation)
    \<Rightarrow> (string \<Rightarrow> exn + RexpayGatewayResponse)
    \<Rightarrow> string \<Rightarrow> 'w service \<Rightarrow> (exn + CardPaymentOutput) \<times> 'w service" where
  "retrievePayment get parse paymentId svc =
     (case retrievePayment_try get parse paymentId svc of
        (Inr output, svc') \<Rightarrow> (Inr output, svc')
      | (Inl error, svc') \<Rightarrow>
          (let svc'' = svc'\<lparr>telemetry := telemetry svc' @ [RecordError ''retrieve_payment'']\<rparr>
           in if isValidationError error then (Inl error, svc'')
              else if isAxiosError error then
                (if response_status error = Some 404 then
                   (Inr (payment_not_found paymentId), svc'')
                 else (Inl (PaymentError ''Failed to retrieve payment'' error), svc''))
              else (Inl (PaymentError ''Payment retrieval failed'' error), svc'')))"

text \<open>A gateway that answers every request for a payment with the same HTTP status.\<close>

definition gateway_status :: "nat \<Rightarrow> string \<Rightarrow> (nat, RexpayGetPaymentResponse) operation" where
  "gateway_status s paymentId n = (Inl (http_failure s), n + 1)"

definition idle_service :: "nat service" where
  "idle_service = \<lparr>network = start_run 0, subaccountMetrics = [], telemetry = []\<rparr>"

section \<open>Example states\<close>

text \<open>A metrics map with a fresh subaccount and one that has settled four payments.\<close>

definition two_subaccounts :: metrics_map where
  "two_subaccounts =
     [(''A'', \<lparr>uuid = ''A'', successRate = 1, lastUsed = 0, totalTransactions = 0,
               successfulTransactions = 0\<rparr>),
      (''B'', \<lparr>uuid = ''B'', successRate = 3 / 4, lastUsed = 1699999000000,
               totalTransactions = 4,
               successfulTransactions = 3\<rparr>)]"

text \<open>
  Metrics maps to run the two selectors on, at the time 1700000000000: a subaccount
  below the minimum success rate that was used 10 ms before, beside one at the minimum
  that was used a thousand seconds before; a single subaccount below the minimum; a
  subaccount used a second before, beside a better one used fifteen days before; and the
  two subaccounts of the specification's scenario.
\<close>

definition recent_low_rate :: metrics_map where
  "recent_low_rate =
     [(''A'', \<lparr>uuid = ''A'', successRate = 79 / 100, lastUsed = 1699999999990,
               totalTransactions = 100, successfulTransactions = 79\<rparr>),
      (''B'', \<lparr>uuid = ''B'', successRate = 80 / 100, lastUsed = 1699999000000,
               totalTransactions = 100, successfulTransactions = 80\<rparr>)]"

definition all_below :: metrics_map where
  "all_below =
     [(''A'', \<lparr>uuid = ''A'', successRate = 1 / 2, lastUsed = 1699999000000,
               totalTransactions = 2, successfulTransactions = 1\<rparr>)]"

definition stale_high_rate :: metrics_map where
  "stale_high_rate =
     [(''A'', \<lparr>uuid = ''A'', successRate = 90 / 100, lastUsed = 1699999999000,
               totalTransactions = 100, successfulTransactions = 90\<rparr>),
      (''B'', \<lparr>uuid = ''B'', successRate = 95 / 100, lastUsed = 1698704000000,
               totalTransactions = 100, successfulTransactions = 95\<rparr>)]"

definition spec_scenario :: metrics_map where
  "spec_scenario =
     [(''A'', \<lparr>uuid = ''A'', successRate = 95 / 100, lastUsed = 1699999000000,
               totalTransactions = 100, successfulTransactions = 95\<rparr>),
      (''B'', \<lparr>uuid = ''B'', successRate = 99 / 100, lastUsed = 1699999000000,
               totalTransactions = 100, successfulTransactions = 99\<rparr>)]"

section \<open>Properties of the retry executor\<close>

declare executeWithRetry_loop.simps [simp del]

lemma loop_resolved:
  "attempt \<le> retries \<Longrightarrow> operation (world st) = (Inr v, w') \<Longrightarrow>
   executeWithRetry_loop operation retries attempt st =
     (Inr v, st\<lparr>world := w', invocations := invocations st + 1\<rparr>)"
  by (subst executeWithRetry_loop.simps) simp

lemma loop_rejected_last:
  "operation (world st) = (Inl e, w') \<Longrightarrow>
   executeWithRetry_loop operation retries retries st =
     (Inl e, st\<lparr>world := w', invocations := invocations st + 1\<rparr>)"
  by (subst executeWithRetry_loop.simps) simp

lemma loop_rejected_again:
  "attempt < retries \<Longrightarrow> operation (world st) = (Inl e, w') \<Longrightarrow>
   executeWithRetry_loop operation retries attempt st =
     executeWithRetry_loop operation retries (attempt + 1)
       (st\<lparr>world := w', invocations := invocations st + 1,
           sleeps := sleeps st @ [INITIAL_RETRY_DELAY * 2 ^ attempt]\<rparr>)"
  by (subst executeWithRetry_loop.simps) simp

text \<open>Each round of the loop invokes the operation once, and there are at most
  \<open>retries + 1\<close> rounds.\<close>

lemma loop_invocations_le:
  "invocations (snd (executeWithRetry_loop operation retries attempt st))
     \<le> invocations st + (Suc retries - attempt)"
proof (induction operation retries attempt st rule: executeWithRetry_loop.induct)
  case (1 operation retries attempt st)
  show ?case
  proof (cases "attempt \<le> retries")
    case False
    then show ?thesis by (subst executeWithRetry_loop.simps) simp
  next
    case le: True
    obtain r w' where op: "operation (world st) = (r, w')" by (cases "operation (world st)")
    show ?thesis
    proof (cases r)
      case (Inr v)
      with le op show ?thesis by (simp add: loop_resolved)
    next
      case (Inl e)
      show ?thesis
      proof (cases "attempt = retries")
        case True
        with op Inl show ?thesis by (simp add: loop_rejected_last)
      next
        case False
        with le have lt: "attempt < retries" by simp
        have "invocations (snd (executeWithRetry_loop operation retries (attempt + 1)
                 (st\<lparr>world := w', invocations := invocations st + 1,
                     sleeps := sleeps st @ [INITIAL_RETRY_DELAY * 2 ^ attempt]\<rparr>)))
              \<le> invocations st + 1 + (Suc retries - (attempt + 1))"
          using "1.IH" [OF le op [symmetric] _ False] Inl by simp
        with lt op Inl show ?thesis by (simp add: loop_rejected_again)
      qed
    qed
  qed
qed

text \<open>An operation that rejects with \<open>e\<close> whenever it is invoked uses up every round.\<close>

lemma loop_always_rejects:
  assumes "\<forall>w. fst (operation w) = Inl e"
  shows "attempt \<le> retries \<Longrightarrow>
    fst (executeWithRetry_loop operation retries attempt st) = Inl e \<and>
    invocations (snd (executeWithRetry_loop operation retries attempt st))
      = invocations st + (Suc retries - attempt) \<and>
    sleeps (snd (executeWithRetry_loop operation retries attempt st))
      = sleeps st @ map (\<lambda>k. INITIAL_RETRY_DELAY * 2 ^ k) [attempt..<retries]"
proof (induction "retries - attempt" arbitrary: attempt st)
  case 0
  then have eq: "attempt = retries" by simp
  obtain w' where "operation (world st) = (Inl e, w')"
    using assms by (metis prod.collapse)
  then show ?case unfolding eq by (simp add: loop_rejected_last)
next
  case (Suc n)
  then have lt: "attempt < retries" by simp
  obtain w' where op: "operation (world st) = (Inl e, w')"
    using assms by (metis prod.collapse)
  have n: "n = retries - (attempt + 1)" using Suc.hyps(2) by simp
  have le: "attempt + 1 \<le> retries" using lt by simp
  show ?case
    using Suc.hyps(1) [OF n le, of "st\<lparr>world := w', invocations := invocations st + 1,
           sleeps := sleeps st @ [INITIAL_RETRY_DELAY * 2 ^ attempt]\<rparr>"] lt op
    by (simp add: loop_rejected_again upt_conv_Cons)
qed

text \<open>
  Claim C7. An operation that rejects with an HTTP 429 response on its first two
  invocations and resolves on the third is invoked exactly three times by the executor
  (with at least two retries allowed, the default being three), which returns the
  resolved value after sleeping \<open>INITIAL_RETRY_DELAY\<close> and twice that. For every
  operation the number of invocations is at most \<open>retries + 1\<close>, that is 4 by default.
\<close>

theorem executeWithRetry_rate_limited_twice:
  assumes "operation w0 = (Inl e1, w1)" and "response_status e1 = Some 429"
    and "operation w1 = (Inl e2, w2)" and "response_status e2 = Some 429"
    and "operation w2 = (Inr v, w3)"
    and "2 \<le> retries"
  shows "executeWithRetry operation retries (start_run w0) =
           (Inr v, \<lparr>world = w3, invocations = 3,
                    sleeps = [INITIAL_RETRY_DELAY, INITIAL_RETRY_DELAY * 2]\<rparr>) \<and>
         invocations (snd (executeWithRetry operation' retries' (start_run w'))) \<le> retries' + 1 \<and>
         invocations (snd (executeWithRetry operation' MAX_RETRIES (start_run w'))) \<le> 4"
proof -
  have first: "executeWithRetry operation retries (start_run w0) =
           (Inr v, \<lparr>world = w3, invocations = 3,
                    sleeps = [INITIAL_RETRY_DELAY, INITIAL_RETRY_DELAY * 2]\<rparr>)"
    using assms(1,3,5,6)
    by (simp add: executeWithRetry_def start_run_def executeWithRetry_loop.simps)
  have bound: "invocations (snd (executeWithRetry op r (start_run w))) \<le> r + 1"
    for op :: "('c, 'd) operation" and r w
    using loop_invocations_le [of op r 0 "start_run w"]
    by (simp add: executeWithRetry_def start_run_def)
  show ?thesis using first bound [of operation' retries' w'] bound [of operation' MAX_RETRIES w']
    by (simp add: MAX_RETRIES_def)
qed

theorem executeWithRetry_rate_limited_twice_witness:
  "executeWithRetry rate_limited_twice MAX_RETRIES (start_run 0) =
     (Inr ''ok'', \<lparr>world = 3, invocations = 3, sleeps = [1000, 2000]\<rparr>) \<and>
   invocations (snd (executeWithRetry rate_limited_twice MAX_RETRIES (start_run 0))) \<le> 4"
  using executeWithRetry_rate_limited_twice
    [of rate_limited_twice 0 "http_failure 429" 1 "http_failure 429" 2 "''ok''" 3 MAX_RETRIES
       rate_limited_twice MAX_RETRIES 0]
  by (simp add: rate_limited_twice_def http_failure_def MAX_RETRIES_def INITIAL_RETRY_DELAY_def)

text \<open>
  Claim C1 does not hold as stated: the executor never looks at the failure. A gateway
  that answers every request with HTTP 400 (which \<open>handleError\<close> classes as a validation
  error) is asked four times, with delays of 1, 2 and 4 seconds in between.
\<close>

theorem executeWithRetry_http_400_counterexample:
  "handleError (http_failure 400) = ValidationError ''Request failed'' \<and>
   invocations
     (snd (executeWithRetry (always_rejects (http_failure 400)) MAX_RETRIES (start_run 0))) = 4 \<and>
   sleeps
     (snd (executeWithRetry (always_rejects (http_failure 400)) MAX_RETRIES (start_run 0)))
     = [1000, 2000, 4000]"
  by (simp add: executeWithRetry_def always_rejects_def MAX_RETRIES_def start_run_def
      INITIAL_RETRY_DELAY_def executeWithRetry_loop.simps handleError_def http_failure_def)

text \<open>
  Claim C1, amended. Whatever the failure is, HTTP 400 included: an operation that
  rejects with it on every invocation is invoked \<open>retries + 1\<close> times (4 by default),
  the executor sleeps \<open>INITIAL_RETRY_DELAY * 2 ^ attempt\<close> after each rejected attempt
  but the last, and the failure is propagated unchanged.
\<close>

theorem executeWithRetry_rejecting_operation:
  assumes "\<forall>w. fst (operation w) = Inl e"
  shows "fst (executeWithRetry operation retries (start_run w0)) = Inl e \<and>
         invocations (snd (executeWithRetry operation retries (start_run w0))) = retries + 1 \<and>
         sleeps (snd (executeWithRetry operation retries (start_run w0))) =
           map (\<lambda>attempt. INITIAL_RETRY_DELAY * 2 ^ attempt) [0..<retries]"
  using loop_always_rejects [OF assms, of 0 retries "start_run w0"]
  by (simp add: executeWithRetry_def start_run_def)

theorem executeWithRetry_rejecting_operation_witness:
  "fst (executeWithRetry (always_rejects (http_failure 400)) MAX_RETRIES (start_run 0)) =
     Inl (http_failure 400) \<and>
   invocations
     (snd (executeWithRetry (always_rejects (http_failure 400)) MAX_RETRIES (start_run 0))) = 4 \<and>
   sleeps
     (snd (executeWithRetry (always_rejects (http_failure 400)) MAX_RETRIES (start_run 0))) =
     [1000, 2000, 4000]"
  using executeWithRetry_rejecting_operation
    [of "always_rejects (http_failure 400)" "http_failure 400" MAX_RETRIES 0]
  by (simp add: always_rejects_def MAX_RETRIES_def INITIAL_RETRY_DELAY_def upt_rec)

section \<open>Properties of the status mapping\<close>

lemma toLowerCase_char_idem: "toLowerCase_char (toLowerCase_char c) = toLowerCase_char c"
  by (simp add: toLowerCase_char_def)

lemma toLowerCase_idem: "toLowerCase (toLowerCase s) = toLowerCase s"
  by (simp add: toLowerCase_def toLowerCase_char_idem)

text \<open>
  Claim C8 does not hold as stated: the status is lower-cased before it is compared, so
  \<open>'SUCCESS'\<close>, which is none of the four strings, maps to \<open>SUCCESS\<close> and not to
  \<open>PENDING\<close>, and \<open>'Error'\<close> maps to \<open>FAILED\<close>.
\<close>

theorem handleRexpayResponseStatus_upper_case_counterexample:
  "''SUCCESS'' \<noteq> ''success'' \<and> ''SUCCESS'' \<noteq> ''completed'' \<and>
   ''SUCCESS'' \<noteq> ''failed'' \<and> ''SUCCESS'' \<noteq> ''error'' \<and>
   handleRexpayResponseStatus (Some ''SUCCESS'') = SUCCESS \<and>
   handleRexpayResponseStatus (Some ''Error'') = FAILED"
  by (simp add: handleRexpayResponseStatus_def toLowerCase_def toLowerCase_char_def)

text \<open>
  Claim C8, amended. The mapping compares the lower-cased status: it yields \<open>SUCCESS\<close>
  when that is \<open>'success'\<close> or \<open>'completed'\<close>, \<open>FAILED\<close> when it is \<open>'failed'\<close> or
  \<open>'error'\<close>, and \<open>PENDING\<close> for every other value and for a missing status; so a
  status and its lower-case form map alike. The variant of \<open>helpers.ts\<close> maps the enum
  value \<open>SUCCESS\<close> to \<open>SUCCESS\<close>, \<open>FAILED\<close> to \<open>FAILED\<close> and the others to \<open>PENDING\<close>.
\<close>

theorem handleRexpayResponseStatus_case_insensitive:
  "handleRexpayResponseStatus (Some s) =
     (if toLowerCase s = ''success'' \<or> toLowerCase s = ''completed'' then SUCCESS
      else if toLowerCase s = ''failed'' \<or> toLowerCase s = ''error'' then FAILED
      else PENDING) \<and>
   handleRexpayResponseStatus (Some (toLowerCase s)) = handleRexpayResponseStatus (Some s) \<and>
   handleRexpayResponseStatus None = PENDING \<and>
   handleRexpayResponseStatus_helpers r =
     (if r = Rexpay_SUCCESS then SUCCESS else if r = Rexpay_FAILED then FAILED else PENDING)"
  by (cases r) (simp_all add: handleRexpayResponseStatus_def toLowerCase_idem)

section \<open>Properties of the subaccount metrics\<close>

lemma map_of_Map_set: "map_of (Map_set k v kvs) = (map_of kvs)(k \<mapsto> v)"
  by (induction kvs) auto

lemma map_fst_Map_set_known:
  "map_of kvs k = Some v0 \<Longrightarrow> map fst (Map_set k v kvs) = map fst kvs"
  by (induction kvs) (auto split: if_splits)

text \<open>
  Claim C10. Recording an outcome for an id that has no entry in the metrics map leaves
  the map as it is: no entry changes and none is created.
\<close>

theorem updateSubaccountMetrics_unknown_id:
  assumes "map_of ms subaccountId = None"
  shows "updateSubaccountMetrics subaccountId success ms = ms"
  using assms by (simp add: updateSubaccountMetrics_def)

theorem updateSubaccountMetrics_unknown_id_witness:
  "map_of two_subaccounts ''C'' = None \<and>
   updateSubaccountMetrics ''C'' True two_subaccounts = two_subaccounts \<and>
   updateSubaccountMetrics ''C'' False two_subaccounts = two_subaccounts"
  using updateSubaccountMetrics_unknown_id [of two_subaccounts "''C''" True]
    updateSubaccountMetrics_unknown_id [of two_subaccounts "''C''" False]
  by (simp add: two_subaccounts_def)

text \<open>One recorded outcome on a known id, and the entries of the other ids.\<close>

lemma updateSubaccountMetrics_known:
  assumes "map_of ms sid = Some m"
  shows "map_of (updateSubaccountMetrics sid success ms) sid =
    Some (m\<lparr>totalTransactions := totalTransactions m + 1,
            successfulTransactions := successfulTransactions m + (if success then 1 else 0),
            successRate := of_nat (successfulTransactions m + (if success then 1 else 0))
                            / of_nat (totalTransactions m + 1)\<rparr>)"
  using assms by (simp add: updateSubaccountMetrics_def map_of_Map_set Let_def)

lemma updateSubaccountMetrics_others:
  "k \<noteq> sid \<Longrightarrow> map_of (updateSubaccountMetrics sid success ms) k = map_of ms k"
  by (simp add: updateSubaccountMetrics_def map_of_Map_set Let_def split: option.splits)

lemma recordOutcomes_counts:
  assumes "map_of ms sid = Some m" "successfulTransactions m \<le> totalTransactions m"
    "outcomes \<noteq> []"
  shows "\<exists>m'. map_of (recordOutcomes sid outcomes ms) sid = Some m' \<and>
     totalTransactions m' = totalTransactions m + length outcomes \<and>
     successfulTransactions m' = successfulTransactions m + length (filter (\<lambda>b. b) outcomes) \<and>
     successRate m' = of_nat (successfulTransactions m') / of_nat (totalTransactions m')"
  using assms
proof (induction outcomes arbitrary: ms m)
  case Nil
  then show ?case by simp
next
  case (Cons success rest)
  let ?m1 = "m\<lparr>totalTransactions := totalTransactions m + 1,
            successfulTransactions := successfulTransactions m + (if success then 1 else 0),
            successRate := of_nat (successfulTransactions m + (if success then 1 else 0))
                            / of_nat (totalTransactions m + 1)\<rparr>"
  have m1: "map_of (updateSubaccountMetrics sid success ms) sid = Some ?m1"
    using Cons.prems(1) by (rule updateSubaccountMetrics_known)
  have le1: "successfulTransactions ?m1 \<le> totalTransactions ?m1"
    using Cons.prems(2) by simp
  show ?case
  proof (cases "rest = []")
    case True
    then show ?thesis using m1 by simp
  next
    case False
    from Cons.IH [OF m1 le1 False] show ?thesis by (cases success) simp_all
  qed
qed

text \<open>
  Claim C9. Take a known subaccount id whose entry counts no more successes than
  transactions (as the entry of a newly registered subaccount does, with both counters
  at zero). After any non-empty sequence of recorded outcomes the entry's
  \<open>totalTransactions\<close> has grown by the number of outcomes, its
  \<open>successfulTransactions\<close> by the number of successful ones, and its \<open>successRate\<close>
  is \<open>successfulTransactions / totalTransactions\<close>, a value in \<open>[0, 1]\<close>.
\<close>

theorem recordOutcomes_successRate:
  assumes "map_of ms subaccountId = Some m"
    and "successfulTransactions m \<le> totalTransactions m"
    and "outcomes \<noteq> []"
  shows "\<exists>m'. map_of (recordOutcomes subaccountId outcomes ms) subaccountId = Some m' \<and>
     totalTransactions m' = totalTransactions m + length outcomes \<and>
     successfulTransactions m' =
       successfulTransactions m + length (filter (\<lambda>success. success) outcomes) \<and>
     successRate m' = of_nat (successfulTransactions m') / of_nat (totalTransactions m') \<and>
     0 \<le> successRate m' \<and> successRate m' \<le> 1"
proof -
  obtain m' where m': "map_of (recordOutcomes subaccountId outcomes ms) subaccountId = Some m'"
     "totalTransactions m' = totalTransactions m + length outcomes"
     "successfulTransactions m' =
       successfulTransactions m + length (filter (\<lambda>success. success) outcomes)"
     "successRate m' = of_nat (successfulTransactions m') / of_nat (totalTransactions m')"
    using recordOutcomes_counts [OF assms] by blast
  have "length (filter (\<lambda>success. success) outcomes) \<le> length outcomes" by simp
  with assms(2) m'(2,3) have le: "successfulTransactions m' \<le> totalTransactions m'"
    by linarith
  have pos: "0 < totalTransactions m'" using m'(2) assms(3) by simp
  have "0 \<le> successRate m'" unfolding m'(4) by simp
  moreover have "successRate m' \<le> 1" unfolding m'(4) using le pos by simp
  ultimately show ?thesis using m' by blast
qed

theorem recordOutcomes_successRate_witness:
  "\<exists>m'. map_of (recordOutcomes ''A'' [True, False, True] two_subaccounts) ''A'' = Some m' \<and>
     totalTransactions m' = 3 \<and> successfulTransactions m' = 2 \<and> successRate m' = 2 / 3 \<and>
     0 \<le> successRate m' \<and> successRate m' \<le> 1"
proof -
  have known: "map_of two_subaccounts ''A'' =
      Some \<lparr>uuid = ''A'', successRate = 1, lastUsed = 0, totalTransactions = 0,
            successfulTransactions = 0\<rparr>"
    by (simp add: two_subaccounts_def)
  from recordOutcomes_successRate [OF known, of "[True, False, True]"]
  obtain m' where
    "map_of (recordOutcomes ''A'' [True, False, True] two_subaccounts) ''A'' = Some m'"
    "totalTransactions m' = 3" "successfulTransactions m' = 2"
    "successRate m' = of_nat (successfulTransactions m') / of_nat (totalTransactions m')"
    "0 \<le> successRate m'" "successRate m' \<le> 1"
    by auto
  then show ?thesis by simp
qed

section \<open>Properties of the payment operations\<close>

lemma response_status_isAxiosError: "response_status e = Some s \<Longrightarrow> isAxiosError e"
  by (cases e) simp_all

lemma response_status_not_validation: "response_status e = Some s \<Longrightarrow> \<not> isValidationError e"
  by (cases e) simp_all

text \<open>An operation whose every rejection satisfies \<open>P\<close> makes the executor reject
  with an error that satisfies \<open>P\<close>.\<close>

lemma loop_rejects_with:
  assumes "\<forall>w. \<exists>e. fst (operation w) = Inl e \<and> P e"
  shows "attempt \<le> retries \<Longrightarrow>
    \<exists>e. fst (executeWithRetry_loop operation retries attempt st) = Inl e \<and> P e"
proof (induction "retries - attempt" arbitrary: attempt st)
  case 0
  then have eq: "attempt = retries" by simp
  obtain e w' where "operation (world st) = (Inl e, w')" "P e"
    using assms by (metis prod.collapse)
  then show ?case unfolding eq by (auto simp: loop_rejected_last)
next
  case (Suc n)
  then have lt: "attempt < retries" by simp
  obtain e w' where op: "operation (world st) = (Inl e, w')"
    using assms by (metis prod.collapse)
  have n: "n = retries - (attempt + 1)" using Suc.hyps(2) by simp
  have le: "attempt + 1 \<le> retries" using lt by simp
  show ?case
    using Suc.hyps(1) [OF n le, of "st\<lparr>world := w', invocations := invocations st + 1,
           sleeps := sleeps st @ [INITIAL_RETRY_DELAY * 2 ^ attempt]\<rparr>"] lt op
    by (simp add: loop_rejected_again)
qed

text \<open>
  Claim C6. For a payment id that is not empty and a gateway that answers every attempt
  with an HTTP failure of status \<open>s\<close>: with \<open>s = 404\<close> \<open>retrievePayment\<close> returns the
  result with status \<open>FAILED\<close> and message \<open>'Payment not found'\<close>; with any other status
  it throws (a \<open>PaymentError\<close> that carries a failure of that status).
\<close>

theorem retrievePayment_http_failure:
  assumes "paymentId \<noteq> []"
    and "\<forall>w. \<exists>e. fst (get paymentId w) = Inl e \<and> response_status e = Some s"
  shows "(s = 404 \<longrightarrow>
           fst (retrievePayment get parse paymentId svc) =
             Inr \<lparr>transactionId = paymentId, status = FAILED, message = ''Payment not found'',
                  gatewayRecommendation = None, gatewayCode = None,
                  acquirerMessage = None\<rparr>) \<and>
         (s \<noteq> 404 \<longrightarrow>
           (\<exists>e. response_status e = Some s \<and>
                fst (retrievePayment get parse paymentId svc) =
                  Inl (PaymentError ''Failed to retrieve payment'' e)))"
proof -
  obtain r net where run: "executeWithRetry (get paymentId) MAX_RETRIES (network svc) = (r, net)"
    by (cases "executeWithRetry (get paymentId) MAX_RETRIES (network svc)")
  obtain e where e: "r = Inl e" "response_status e = Some s"
    using loop_rejects_with [OF assms(2), of 0 MAX_RETRIES "network svc"] run
    by (auto simp: executeWithRetry_def)
  then have "retrievePayment_try get parse paymentId svc = (Inl e, svc\<lparr>network := net\<rparr>)"
    using assms(1) run by (simp add: retrievePayment_try_def)
  then show ?thesis
    using e(2) response_status_isAxiosError [OF e(2)]
      response_status_not_validation [OF e(2)]
    by (auto simp: retrievePayment_def payment_not_found_def Let_def)
qed

theorem retrievePayment_http_failure_witness:
  "fst (retrievePayment (gateway_status 404) (\<lambda>blob. Inr JsonNull) ''missing-id''
          idle_service) =
     Inr \<lparr>transactionId = ''missing-id'', status = FAILED, message = ''Payment not found'',
          gatewayRecommendation = None, gatewayCode = None, acquirerMessage = None\<rparr> \<and>
   (\<exists>e. response_status e = Some 500 \<and>
        fst (retrievePayment (gateway_status 500) (\<lambda>blob. Inr JsonNull) ''missing-id''
          idle_service) = Inl (PaymentError ''Failed to retrieve payment'' e))"
  using retrievePayment_http_failure
      [of "''missing-id''" "gateway_status 404" 404 "\<lambda>blob. Inr JsonNull" idle_service]
    retrievePayment_http_failure
      [of "''missing-id''" "gateway_status 500" 500 "\<lambda>blob. Inr JsonNull" idle_service]
  by (simp add: gateway_status_def http_failure_def)

text \<open>
  Claim C5, on the code: for a payment whose card carries no \<open>encrypted\<close> field,
  \<open>authorizePayment\<close> makes no network call (the network and the executor's trace are
  as before), but what it throws is a \<open>PaymentError\<close> that wraps the
  \<open>ValidationError\<close>, not the \<open>ValidationError\<close> itself.
\<close>

theorem authorizePayment_without_encrypted:
  "authorizePayment L cfg parse post (payment\<lparr>card := (card payment)\<lparr>encrypted := None\<rparr>\<rparr>) svc =
     (Inl (PaymentError ''Failed to authorize payment: No encrypted card details found''
            (ValidationError ''No encrypted card details found'')),
      svc\<lparr>telemetry := telemetry svc @ [RecordError ''authorize_payment'']\<rparr>)"
  by (simp add: authorizePayment_def authorizePayment_try_def falsy_def)

section \<open>Properties of the subaccount selection\<close>

lemma recency_nonneg: "0 \<le> recency now m"
  by (simp add: recency_def)

lemma selectBest_loop_result:
  "selectBest_loop cfg now ms (b, best) = (b', best') \<Longrightarrow>
     b \<le> b' \<and>
     (\<forall>(k, m) \<in> set ms. minSuccessRate cfg \<le> successRate m \<longrightarrow> score cfg now m \<le> b') \<and>
     ((b', best') = (b, best) \<or>
      (\<exists>(k, m) \<in> set ms. minSuccessRate cfg \<le> successRate m \<and> best' = Some k \<and>
          b' = score cfg now m))"
proof (induction ms arbitrary: b best)
  case Nil
  then show ?case by simp
next
  case (Cons p ms)
  obtain k m where p: "p = (k, m)" by (cases p)
  show ?case
  proof (cases "successRate m < minSuccessRate cfg")
    case True
    with Cons.prems p have "selectBest_loop cfg now ms (b, best) = (b', best')" by simp
    from Cons.IH [OF this] show ?thesis using True p by auto
  next
    case False
    show ?thesis
    proof (cases "score cfg now m > b")
      case True
      with False Cons.prems p
      have "selectBest_loop cfg now ms (score cfg now m, Some k) = (b', best')" by simp
      from Cons.IH [OF this] show ?thesis using True False p by auto
    next
      case low: False
      with False Cons.prems p have "selectBest_loop cfg now ms (b, best) = (b', best')" by simp
      from Cons.IH [OF this] show ?thesis using low False p by auto
    qed
  qed
qed

lemma selectBestSubaccount_Some:
  assumes "selectBestSubaccount cfg now ms = Some sid"
  shows "\<exists>m. (sid, m) \<in> set ms \<and> minSuccessRate cfg \<le> successRate m \<and>
           (\<forall>(k', m') \<in> set ms. minSuccessRate cfg \<le> successRate m' \<longrightarrow>
               score cfg now m' \<le> score cfg now m)"
proof -
  obtain b' best' where run: "selectBest_loop cfg now ms (- 1, None) = (b', best')"
    by (cases "selectBest_loop cfg now ms (- 1, None)")
  with assms have best: "best' = Some sid"
    by (simp add: selectBestSubaccount_def split: if_splits)
  from selectBest_loop_result [OF run] best show ?thesis by auto
qed

lemma selectBestSubaccount_finds:
  assumes "(k, m) \<in> set ms" and "minSuccessRate cfg \<le> successRate m"
    and "- 1 < score cfg now m"
  shows "\<exists>sid. selectBestSubaccount cfg now ms = Some sid"
proof -
  obtain b' best' where run: "selectBest_loop cfg now ms (- 1, None) = (b', best')"
    by (cases "selectBest_loop cfg now ms (- 1, None)")
  from selectBest_loop_result [OF run] assms have "- 1 < b'" by fastforce
  with selectBest_loop_result [OF run] obtain sid where "best' = Some sid" by auto
  with run assms(1) show ?thesis by (auto simp: selectBestSubaccount_def)
qed

lemma selectBestSubaccount_all_below:
  assumes "\<forall>(k, m) \<in> set ms. successRate m < minSuccessRate cfg"
  shows "selectBestSubaccount cfg now ms = None"
proof -
  obtain b' best' where run: "selectBest_loop cfg now ms (- 1, None) = (b', best')"
    by (cases "selectBest_loop cfg now ms (- 1, None)")
  from selectBest_loop_result [OF run] assms have "best' = None" by fastforce
  with run show ?thesis by (simp add: selectBestSubaccount_def)
qed

lemma score_nonneg:
  assumes "0 \<le> successRateWeight cfg" "0 \<le> recencyWeight cfg" "0 \<le> successRate m"
  shows "0 \<le> score cfg now m"
  using assms recency_nonneg [of now m] by (simp add: score_def)

text \<open>
  Claim C2 does not hold for \<open>selectOptimalSubaccount\<close>, which has no minimum success
  rate: of two fetched subaccounts it returns the one with success rate 0.79, used 10 ms
  before, although the other has success rate 0.80, the default minimum.
\<close>

theorem selectOptimalSubaccount_below_threshold_counterexample:
  "fst (selectOptimalSubaccount 1700000000000 [''A'', ''B''] recent_low_rate) = Inr ''A'' \<and>
   map_option successRate (map_of recent_low_rate ''A'') = Some (79 / 100) \<and>
   map_option successRate (map_of recent_low_rate ''B'') = Some (80 / 100) \<and>
   79 / 100 < minSuccessRate defaultConfig \<and> minSuccessRate defaultConfig \<le> 80 / 100"
  by (simp add: selectOptimalSubaccount_def recent_low_rate_def initialize_metrics_def
      Array_sort_def weightedScore_def defaultConfig_def)

text \<open>
  Claim C2, amended to \<open>selectBestSubaccount\<close>, the selector that has the minimum
  success rate. With distinct keys of the map and non-negative weights and success
  rates: whenever a known subaccount
  has a success rate at or above the minimum, the selector returns an id whose success
  rate is at or above it; it never returns an id whose success rate is below it; and
  when every known subaccount is below it, it returns none.
\<close>

theorem selectBestSubaccount_threshold:
  assumes "distinct (map fst ms)"
    and "0 \<le> successRateWeight cfg" and "0 \<le> recencyWeight cfg"
    and "\<forall>(k, m) \<in> set ms. 0 \<le> successRate m"
  shows "((\<exists>k m. map_of ms k = Some m \<and> minSuccessRate cfg \<le> successRate m) \<longrightarrow>
            (\<exists>sid m. selectBestSubaccount cfg now ms = Some sid \<and> map_of ms sid = Some m \<and>
                     minSuccessRate cfg \<le> successRate m)) \<and>
         (\<forall>sid. selectBestSubaccount cfg now ms = Some sid \<longrightarrow>
            (\<exists>m. map_of ms sid = Some m \<and> minSuccessRate cfg \<le> successRate m)) \<and>
         ((\<forall>k m. map_of ms k = Some m \<longrightarrow> successRate m < minSuccessRate cfg) \<longrightarrow>
            selectBestSubaccount cfg now ms = None)"
proof (intro conjI impI allI)
  fix sid
  assume "selectBestSubaccount cfg now ms = Some sid"
  from selectBestSubaccount_Some [OF this] assms(1)
  show "\<exists>m. map_of ms sid = Some m \<and> minSuccessRate cfg \<le> successRate m"
    by auto
next
  assume "\<exists>k m. map_of ms k = Some m \<and> minSuccessRate cfg \<le> successRate m"
  then obtain k m where km: "(k, m) \<in> set ms" "minSuccessRate cfg \<le> successRate m"
    using assms(1) by auto
  have "0 \<le> successRate m" using assms(4) km(1) by auto
  then have "- 1 < score cfg now m"
    using score_nonneg [OF assms(2,3), of m now] by simp
  from selectBestSubaccount_finds [OF km this]
  obtain sid where sid: "selectBestSubaccount cfg now ms = Some sid" by blast
  from selectBestSubaccount_Some [OF this] assms(1) sid
  show "\<exists>sid m. selectBestSubaccount cfg now ms = Some sid \<and> map_of ms sid = Some m \<and>
                     minSuccessRate cfg \<le> successRate m"
    by auto
next
  assume "\<forall>k m. map_of ms k = Some m \<longrightarrow> successRate m < minSuccessRate cfg"
  then have "\<forall>(k, m) \<in> set ms. successRate m < minSuccessRate cfg"
    using assms(1) by auto
  then show "selectBestSubaccount cfg now ms = None"
    by (rule selectBestSubaccount_all_below)
qed

theorem selectBestSubaccount_threshold_witness:
  "selectBestSubaccount defaultConfig 1700000000000 recent_low_rate = Some ''B'' \<and>
   map_option successRate (map_of recent_low_rate ''B'') = Some (80 / 100) \<and>
   minSuccessRate defaultConfig \<le> 80 / 100 \<and>
   selectBestSubaccount defaultConfig 1700000000000 all_below = None"
  using selectBestSubaccount_threshold [of recent_low_rate defaultConfig 1700000000000]
    selectBestSubaccount_threshold [of all_below defaultConfig 1700000000000]
  by (simp add: recent_low_rate_def all_below_def defaultConfig_def selectBestSubaccount_def
      score_def recency_def)

text \<open>
  Claim C3 does not hold for \<open>selectOptimalSubaccount\<close>, whose recency term is
  \<open>1 / (now - lastUsed + 1)\<close>: it returns \<open>B\<close> (success rate 0.95, used fifteen days
  ago), whose score by the claim's formula, 0.815, is below that of \<open>A\<close> (success rate
  0.90, used a second ago), about 0.93; \<open>selectBestSubaccount\<close> returns \<open>A\<close> there.
\<close>

theorem selectOptimalSubaccount_other_score_counterexample:
  "fst (selectOptimalSubaccount 1700000000000 [''A'', ''B''] stale_high_rate) = Inr ''B'' \<and>
   map_option (score defaultConfig 1700000000000) (map_of stale_high_rate ''B'')
     = Some (163 / 200) \<and>
   map_option (score defaultConfig 1700000000000) (map_of stale_high_rate ''A'')
     = Some (8035199 / 8640000) \<and>
   (163 / 200 :: rat) < 8035199 / 8640000 \<and>
   selectBestSubaccount defaultConfig 1700000000000 stale_high_rate = Some ''A''"
  by (simp add: selectOptimalSubaccount_def stale_high_rate_def initialize_metrics_def
      Array_sort_def weightedScore_def defaultConfig_def score_def recency_def
      selectBestSubaccount_def)

lemma score_defaultConfig:
  "score defaultConfig now m =
     successRate m * (7 / 10) +
       (1 - min 1 (of_int (now - lastUsed m) / of_int (30 * 24 * 60 * 60 * 1000))) * (3 / 10)"
  by (simp add: score_def defaultConfig_def recency_def)

lemma selectBestSubaccount_default_finds:
  assumes "(k, m) \<in> set ms" and "8 / 10 \<le> successRate m"
  shows "\<exists>sid. selectBestSubaccount defaultConfig now ms = Some sid"
proof -
  have "0 \<le> score defaultConfig now m"
    using assms(2) by (intro score_nonneg) (simp_all add: defaultConfig_def)
  then have "- 1 < score defaultConfig now m" by simp
  moreover have "minSuccessRate defaultConfig \<le> successRate m"
    using assms(2) by (simp add: defaultConfig_def)
  ultimately show ?thesis using selectBestSubaccount_finds [OF assms(1)] by blast
qed

lemma selectBestSubaccount_scenario:
  assumes "successRate ma = 95 / 100" and "successRate mb = 99 / 100"
    and "lastUsed ma = lastUsed mb"
  shows "selectBestSubaccount defaultConfig now [(a, ma), (b, mb)] = Some b"
    and "selectBestSubaccount defaultConfig now [(b, mb), (a, ma)] = Some b"
proof -
  have r: "recency now ma = recency now mb" using assms(3) by (simp add: recency_def)
  have sa: "score defaultConfig now ma = 665 / 1000 + recency now mb * (3 / 10)"
    using assms(1) r by (simp add: score_def defaultConfig_def)
  have sb: "score defaultConfig now mb = 693 / 1000 + recency now mb * (3 / 10)"
    using assms(2) by (simp add: score_def defaultConfig_def)
  have pos: "0 \<le> recency now mb * (3 / 10)" using recency_nonneg [of now mb] by simp
  have a1: "- 1 < score defaultConfig now ma" using sa pos by linarith
  have b1: "- 1 < score defaultConfig now mb" using sb pos by linarith
  have ab: "score defaultConfig now ma < score defaultConfig now mb" using sa sb by linarith
  have thr: "minSuccessRate defaultConfig = 8 / 10" by (simp add: defaultConfig_def)
  show "selectBestSubaccount defaultConfig now [(a, ma), (b, mb)] = Some b"
    using a1 ab assms(1,2) by (simp add: selectBestSubaccount_def thr)
  show "selectBestSubaccount defaultConfig now [(b, mb), (a, ma)] = Some b"
    using b1 ab assms(1,2) by (simp add: selectBestSubaccount_def thr)
qed

lemma selectOptimalSubaccount_scenario:
  assumes "a \<noteq> b" and "uuid ma = a" and "uuid mb = b"
    and "successRate ma = 95 / 100" and "successRate mb = 99 / 100"
    and "lastUsed ma = lastUsed mb"
  shows "fst (selectOptimalSubaccount now [a, b] [(a, ma), (b, mb)]) = Inr b"
    and "fst (selectOptimalSubaccount now [a, b] [(b, mb), (a, ma)]) = Inr b"
proof -
  have d: "weightedScore now mb - weightedScore now ma = 28 / 1000"
    using assms(4,5,6) by (simp add: weightedScore_def)
  then have d': "weightedScore now ma - weightedScore now mb = - (28 / 1000)" by linarith
  show "fst (selectOptimalSubaccount now [a, b] [(a, ma), (b, mb)]) = Inr b"
    using assms(1,2,3) d
    by (simp add: selectOptimalSubaccount_def initialize_metrics_def Array_sort_def)
  show "fst (selectOptimalSubaccount now [a, b] [(b, mb), (a, ma)]) = Inr b"
    using assms(1,2,3) d'
    by (simp add: selectOptimalSubaccount_def initialize_metrics_def Array_sort_def)
qed

text \<open>
  The head of the sorted array has the highest score, so what \<open>selectOptimalSubaccount\<close>
  returns is a highest-scored entry of a fetched subaccount; and it does return one when
  a subaccount was fetched and the entries are keyed by their uuid.
\<close>

lemma set_insert_sorted: "set (insert_sorted cmp a xs) = insert a (set xs)"
  by (induction xs) auto

lemma set_Array_sort: "set (Array_sort cmp xs) = set xs"
  unfolding Array_sort_def by (induction xs) (simp_all add: set_insert_sorted)

lemma Array_sort_Cons:
  "Array_sort cmp (x # xs) = insert_sorted cmp x (Array_sort cmp xs)"
  by (simp add: Array_sort_def)

lemma Array_sort_head_highest:
  "Array_sort (\<lambda>a b. f b - f a) xs = y # ys \<Longrightarrow> \<forall>x \<in> set xs. f x \<le> (f y :: rat)"
proof (induction xs arbitrary: y ys)
  case Nil
  then show ?case by simp
next
  case (Cons x xs)
  let ?cmp = "\<lambda>a b. f b - f a"
  show ?case
  proof (cases "Array_sort ?cmp xs")
    case Nil
    then have "set xs = {}" using set_Array_sort [of ?cmp xs] by simp
    with Cons.prems Nil show ?thesis by (simp add: Array_sort_Cons)
  next
    case (Cons z zs)
    from Cons.IH [OF this] have IH: "\<forall>x' \<in> set xs. f x' \<le> f z" .
    show ?thesis
    proof (cases "f z - f x \<le> 0")
      case True
      with Cons.prems Cons have "y = x" by (simp add: Array_sort_Cons)
      with True IH show ?thesis by auto
    next
      case False
      with Cons.prems Cons have "y = z" by (simp add: Array_sort_Cons)
      with False IH show ?thesis by auto
    qed
  qed
qed

lemma selectOptimalSubaccount_returns_highest:
  assumes "fst (selectOptimalSubaccount now subaccounts ms0) = Inr u"
  shows "u \<in> set subaccounts \<and>
     (\<exists>(k, m) \<in> set (initialize_metrics subaccounts ms0). uuid m = u \<and>
        (\<forall>(k', m') \<in> set (initialize_metrics subaccounts ms0).
            uuid m' \<in> set subaccounts \<longrightarrow> weightedScore now m' \<le> weightedScore now m))"
proof -
  let ?ms = "initialize_metrics subaccounts ms0"
  let ?fetched = "filter (\<lambda>metrics. uuid metrics \<in> set subaccounts) (map snd ?ms)"
  let ?sorted = "Array_sort (\<lambda>a b. weightedScore now b - weightedScore now a) ?fetched"
  obtain selected rest where sorted: "?sorted = selected # rest" and u: "u = uuid selected"
    using assms by (cases ?sorted) (simp_all add: selectOptimalSubaccount_def)
  have "selected \<in> set ?sorted" using sorted by simp
  then have sel: "selected \<in> set ?fetched" by (simp only: set_Array_sort)
  have high: "\<forall>x \<in> set ?fetched. weightedScore now x \<le> weightedScore now selected"
    using sorted by (rule Array_sort_head_highest)
  from sel obtain k where "(k, selected) \<in> set ?ms" "uuid selected \<in> set subaccounts"
    by auto
  with high u show ?thesis by force
qed

lemma key_uuid_Map_set:
  "\<forall>(k, m) \<in> set ms. uuid m = k \<Longrightarrow> uuid v = k' \<Longrightarrow>
   \<forall>(k, m) \<in> set (Map_set k' v ms). uuid m = k"
  by (induction ms) (auto split: if_splits)

lemma initialize_metrics_Cons:
  "initialize_metrics (sub # subaccounts) ms =
     initialize_metrics subaccounts
       (if map_of ms sub = None then Map_set sub (new_metrics sub) ms else ms)"
  by (simp add: initialize_metrics_def)

lemma key_uuid_initialize_metrics:
  "\<forall>(k, m) \<in> set ms. uuid m = k \<Longrightarrow>
   \<forall>(k, m) \<in> set (initialize_metrics subaccounts ms). uuid m = k"
proof (induction subaccounts arbitrary: ms)
  case Nil
  then show ?case by (simp add: initialize_metrics_def)
next
  case (Cons sub subaccounts)
  have "\<forall>(k, m) \<in> set (if map_of ms sub = None then Map_set sub (new_metrics sub) ms else ms).
          uuid m = k"
    using Cons.prems key_uuid_Map_set [of ms "new_metrics sub" sub]
    by (simp add: new_metrics_def)
  then show ?case unfolding initialize_metrics_Cons by (rule Cons.IH)
qed

lemma initialize_metrics_keeps_known:
  "map_of ms k \<noteq> None \<Longrightarrow> map_of (initialize_metrics subaccounts ms) k \<noteq> None"
proof (induction subaccounts arbitrary: ms)
  case Nil
  then show ?case by (simp add: initialize_metrics_def)
next
  case (Cons sub subaccounts)
  have "map_of (if map_of ms sub = None then Map_set sub (new_metrics sub) ms else ms) k \<noteq> None"
    using Cons.prems by (simp add: map_of_Map_set)
  then show ?case unfolding initialize_metrics_Cons by (rule Cons.IH)
qed

lemma initialize_metrics_registers:
  "sub \<in> set subaccounts \<Longrightarrow> map_of (initialize_metrics subaccounts ms) sub \<noteq> None"
proof (induction subaccounts arbitrary: ms)
  case Nil
  then show ?case by simp
next
  case (Cons s subaccounts)
  let ?ms1 = "if map_of ms s = None then Map_set s (new_metrics s) ms else ms"
  show ?case
  proof (cases "sub = s")
    case True
    have "map_of ?ms1 sub \<noteq> None" using True by (simp add: map_of_Map_set)
    then show ?thesis
      unfolding initialize_metrics_Cons by (rule initialize_metrics_keeps_known)
  next
    case False
    with Cons.prems have "sub \<in> set subaccounts" by simp
    then show ?thesis unfolding initialize_metrics_Cons by (rule Cons.IH)
  qed
qed

lemma selectOptimalSubaccount_returns:
  assumes "subaccounts \<noteq> []" and "\<forall>(k, m) \<in> set ms0. uuid m = k"
  shows "\<exists>u. fst (selectOptimalSubaccount now subaccounts ms0) = Inr u"
proof -
  let ?ms = "initialize_metrics subaccounts ms0"
  let ?fetched = "filter (\<lambda>metrics. uuid metrics \<in> set subaccounts) (map snd ?ms)"
  let ?sorted = "Array_sort (\<lambda>a b. weightedScore now b - weightedScore now a) ?fetched"
  obtain sub where sub: "sub \<in> set subaccounts" using assms(1) by (cases subaccounts) auto
  then obtain m where "map_of ?ms sub = Some m"
    using initialize_metrics_registers [OF sub, of ms0] by auto
  then have mem: "(sub, m) \<in> set ?ms" by (rule map_of_SomeD)
  then have "uuid m = sub" using key_uuid_initialize_metrics [OF assms(2), of subaccounts] by auto
  with mem sub have "m \<in> set ?fetched" by force
  then have "m \<in> set ?sorted" by (simp only: set_Array_sort)
  then obtain selected rest where "?sorted = selected # rest" by (cases ?sorted) auto
  then show ?thesis by (simp add: selectOptimalSubaccount_def)
qed

text \<open>
  Claim C3, amended. Every id \<open>selectBestSubaccount\<close> returns is a known id (the keys
  of the map being distinct) whose success rate is at or above the minimum and whose
  score is the highest among the known subaccounts at or above it; under the default
  configuration the score is \<open>successRate * 0.7 + recency * 0.3\<close> with
  \<open>recency = 1 - min(1, (now - lastUsed) / 30 days)\<close>, and an id is returned whenever a
  known success rate is at least 0.8.
  \<open>selectOptimalSubaccount\<close> scores by \<open>successRate * 0.7 + 0.3 / (now - lastUsed + 1)\<close>:
  provided no entry of the map (after the fetched subaccounts are registered) has
  \<open>lastUsed\<close> later than \<open>now\<close>, every id it returns is the uuid of a fetched
  subaccount's entry with the highest such score among the fetched subaccounts' entries,
  and it returns one when the fetched list is not empty and the entries are keyed by
  their uuid. For a map of exactly two distinct subaccounts keyed by their uuid, both
  fetched, with equal \<open>lastUsed\<close> not later than \<open>now\<close> and success rates 0.95 and
  0.99, both selectors return the one with 0.99.
\<close>

theorem selectBestSubaccount_highest_score:
  assumes "distinct (map fst ms)"
  shows "(\<forall>sid. selectBestSubaccount cfg now ms = Some sid \<longrightarrow>
            (\<exists>m. map_of ms sid = Some m \<and> minSuccessRate cfg \<le> successRate m \<and>
                 (\<forall>k' m'. map_of ms k' = Some m' \<and> minSuccessRate cfg \<le> successRate m' \<longrightarrow>
                      score cfg now m' \<le> score cfg now m))) \<and>
         score defaultConfig now m0 =
           successRate m0 * (7 / 10) +
             (1 - min 1 (of_int (now - lastUsed m0) / of_int (30 * 24 * 60 * 60 * 1000)))
               * (3 / 10) \<and>
         ((\<exists>k m. map_of ms k = Some m \<and> 8 / 10 \<le> successRate m) \<longrightarrow>
            (\<exists>sid. selectBestSubaccount defaultConfig now ms = Some sid)) \<and>
         (a \<noteq> b \<and> uuid ma = a \<and> uuid mb = b \<and> successRate ma = 95 / 100 \<and>
          successRate mb = 99 / 100 \<and> lastUsed ma = lastUsed mb \<and> lastUsed ma \<le> now \<longrightarrow>
            selectBestSubaccount defaultConfig now [(a, ma), (b, mb)] = Some b \<and>
            selectBestSubaccount defaultConfig now [(b, mb), (a, ma)] = Some b \<and>
            fst (selectOptimalSubaccount now [a, b] [(a, ma), (b, mb)]) = Inr b \<and>
            fst (selectOptimalSubaccount now [a, b] [(b, mb), (a, ma)]) = Inr b) \<and>
         weightedScore now m0 =
           successRate m0 * (7 / 10) + (1 / of_int (now - lastUsed m0 + 1)) * (3 / 10) \<and>
         ((\<forall>(k, m) \<in> set (initialize_metrics subaccounts ms0). lastUsed m \<le> now) \<longrightarrow>
            (\<forall>u. fst (selectOptimalSubaccount now subaccounts ms0) = Inr u \<longrightarrow>
               u \<in> set subaccounts \<and>
               (\<exists>(k, m) \<in> set (initialize_metrics subaccounts ms0). uuid m = u \<and>
                  (\<forall>(k', m') \<in> set (initialize_metrics subaccounts ms0).
                      uuid m' \<in> set subaccounts \<longrightarrow>
                        weightedScore now m' \<le> weightedScore now m))) \<and>
            (subaccounts \<noteq> [] \<and> (\<forall>(k, m) \<in> set ms0. uuid m = k) \<longrightarrow>
               (\<exists>u. fst (selectOptimalSubaccount now subaccounts ms0) = Inr u)))"
proof -
  have best: "\<forall>sid. selectBestSubaccount cfg now ms = Some sid \<longrightarrow>
            (\<exists>m. map_of ms sid = Some m \<and> minSuccessRate cfg \<le> successRate m \<and>
                 (\<forall>k' m'. map_of ms k' = Some m' \<and> minSuccessRate cfg \<le> successRate m' \<longrightarrow>
                      score cfg now m' \<le> score cfg now m))"
  proof (intro allI impI)
    fix sid
    assume "selectBestSubaccount cfg now ms = Some sid"
    from selectBestSubaccount_Some [OF this] assms
    show "\<exists>m. map_of ms sid = Some m \<and> minSuccessRate cfg \<le> successRate m \<and>
          (\<forall>k' m'. map_of ms k' = Some m' \<and> minSuccessRate cfg \<le> successRate m' \<longrightarrow>
              score cfg now m' \<le> score cfg now m)"
      by fastforce
  qed
  have finds: "(\<exists>k m. map_of ms k = Some m \<and> 8 / 10 \<le> successRate m) \<longrightarrow>
            (\<exists>sid. selectBestSubaccount defaultConfig now ms = Some sid)"
  proof
    assume "\<exists>k m. map_of ms k = Some m \<and> 8 / 10 \<le> successRate m"
    then obtain k m where "(k, m) \<in> set ms" "8 / 10 \<le> successRate m"
      using assms by auto
    then show "\<exists>sid. selectBestSubaccount defaultConfig now ms = Some sid"
      by (rule selectBestSubaccount_default_finds)
  qed
  have scenario: "a \<noteq> b \<and> uuid ma = a \<and> uuid mb = b \<and> successRate ma = 95 / 100 \<and>
          successRate mb = 99 / 100 \<and> lastUsed ma = lastUsed mb \<and> lastUsed ma \<le> now \<longrightarrow>
            selectBestSubaccount defaultConfig now [(a, ma), (b, mb)] = Some b \<and>
            selectBestSubaccount defaultConfig now [(b, mb), (a, ma)] = Some b \<and>
            fst (selectOptimalSubaccount now [a, b] [(a, ma), (b, mb)]) = Inr b \<and>
            fst (selectOptimalSubaccount now [a, b] [(b, mb), (a, ma)]) = Inr b"
    using selectBestSubaccount_scenario
        [where ma = ma and mb = mb and now = now and a = a and b = b]
      selectOptimalSubaccount_scenario
        [where ma = ma and mb = mb and now = now and a = a and b = b]
    by blast
  have optimal: "(\<forall>(k, m) \<in> set (initialize_metrics subaccounts ms0). lastUsed m \<le> now) \<longrightarrow>
            (\<forall>u. fst (selectOptimalSubaccount now subaccounts ms0) = Inr u \<longrightarrow>
               u \<in> set subaccounts \<and>
               (\<exists>(k, m) \<in> set (initialize_metrics subaccounts ms0). uuid m = u \<and>
                  (\<forall>(k', m') \<in> set (initialize_metrics subaccounts ms0).
                      uuid m' \<in> set subaccounts \<longrightarrow>
                        weightedScore now m' \<le> weightedScore now m))) \<and>
            (subaccounts \<noteq> [] \<and> (\<forall>(k, m) \<in> set ms0. uuid m = k) \<longrightarrow>
               (\<exists>u. fst (selectOptimalSubaccount now subaccounts ms0) = Inr u))"
    using selectOptimalSubaccount_returns_highest [of now subaccounts ms0]
      selectOptimalSubaccount_returns [of subaccounts ms0 now]
    by blast
  show ?thesis
    using best finds scenario optimal score_defaultConfig [of now m0]
    by (simp only: weightedScore_def simp_thms)
qed

theorem selectBestSubaccount_highest_score_witness:
  "selectBestSubaccount defaultConfig 1700000000000 spec_scenario = Some ''B'' \<and>
   fst (selectOptimalSubaccount 1700000000000 [''A'', ''B''] spec_scenario) = Inr ''B'' \<and>
   (\<exists>(k, m) \<in> set spec_scenario. uuid m = ''B'' \<and>
      (\<forall>(k', m') \<in> set spec_scenario.
          weightedScore 1700000000000 m' \<le> weightedScore 1700000000000 m))"
  using selectBestSubaccount_highest_score
    [where ms = spec_scenario and cfg = defaultConfig and now = 1700000000000
       and a = "''A''" and b = "''B''"
       and ma = "\<lparr>uuid = ''A'', successRate = 95 / 100, lastUsed = 1699999000000,
               totalTransactions = 100, successfulTransactions = 95\<rparr>"
       and mb = "\<lparr>uuid = ''B'', successRate = 99 / 100, lastUsed = 1699999000000,
               totalTransactions = 100, successfulTransactions = 99\<rparr>"
       and subaccounts = "[''A'', ''B'']" and ms0 = spec_scenario]
  by (simp add: spec_scenario_def initialize_metrics_def)

section \<open>The counters of the metrics map\<close>

text \<open>
  The condition on the counters that the statement on recorded outcomes starts from
  holds in the empty map and is kept by every operation that changes the map.
\<close>

lemma counts_ok_empty: "counts_ok []"
  by (simp add: counts_ok_def)

lemma list_all_Map_set:
  "list_all P kvs \<Longrightarrow> P (k, v) \<Longrightarrow> list_all P (Map_set k v kvs)"
  by (induction kvs) auto

lemma list_all_map_of:
  "list_all P kvs \<Longrightarrow> map_of kvs k = Some v \<Longrightarrow> P (k, v)"
  by (induction kvs) (auto split: if_splits)

lemma counts_ok_known:
  "counts_ok ms \<Longrightarrow> map_of ms k = Some m \<Longrightarrow> successfulTransactions m \<le> totalTransactions m"
  unfolding counts_ok_def by (drule (1) list_all_map_of) simp

lemma counts_ok_updateSubaccountMetrics:
  assumes "counts_ok ms"
  shows "counts_ok (updateSubaccountMetrics sid success ms)"
proof (cases "map_of ms sid")
  case None
  then show ?thesis using assms by (simp add: updateSubaccountMetrics_def)
next
  case (Some m)
  then have "successfulTransactions m \<le> totalTransactions m"
    using assms by (simp add: counts_ok_known)
  then show ?thesis
    using assms Some unfolding counts_ok_def updateSubaccountMetrics_def
    by (auto simp: Let_def intro!: list_all_Map_set)
qed

lemma counts_ok_adjustSubaccountMetrics:
  assumes "counts_ok ms"
  shows "counts_ok (adjustSubaccountMetrics sid rate ms)"
proof (cases "map_of ms sid")
  case None
  then show ?thesis using assms by (simp add: adjustSubaccountMetrics_def)
next
  case (Some m)
  then have "successfulTransactions m \<le> totalTransactions m"
    using assms by (simp add: counts_ok_known)
  then show ?thesis
    using assms Some unfolding counts_ok_def adjustSubaccountMetrics_def
    by (auto intro!: list_all_Map_set)
qed

lemma counts_ok_initialize_metrics:
  "counts_ok ms \<Longrightarrow> counts_ok (initialize_metrics subaccounts ms)"
  unfolding initialize_metrics_def
proof (induction subaccounts arbitrary: ms)
  case Nil
  then show ?case by simp
next
  case (Cons sub subaccounts)
  have "counts_ok (if map_of ms sub = None then Map_set sub (new_metrics sub) ms else ms)"
    using Cons.prems unfolding counts_ok_def
    by (auto simp: new_metrics_def intro!: list_all_Map_set)
  from Cons.IH [OF this] show ?case by simp
qed

lemma counts_ok_selectOptimalSubaccount:
  assumes "counts_ok ms"
  shows "counts_ok (snd (selectOptimalSubaccount now subaccounts ms))"
proof -
  let ?ms = "initialize_metrics subaccounts ms"
  let ?sorted = "Array_sort (\<lambda>a b. weightedScore now b - weightedScore now a)
              (filter (\<lambda>metrics. uuid metrics \<in> set subaccounts) (map snd ?ms))"
  have ok: "counts_ok ?ms" using assms by (rule counts_ok_initialize_metrics)
  have set_insert: "set (insert_sorted cmp a xs) = insert a (set xs)" for cmp and a :: 'a and xs
    by (induction xs) auto
  have set_sort: "set (Array_sort cmp xs) = set xs" for cmp and xs :: "'a list"
    unfolding Array_sort_def by (induction xs) (simp_all add: set_insert)
  show ?thesis
  proof (cases ?sorted)
    case Nil
    then show ?thesis using ok by (simp add: selectOptimalSubaccount_def)
  next
    case (Cons selected rest)
    then have "selected \<in> set ?sorted" by simp
    then have "selected \<in> snd ` set ?ms" by (simp add: set_sort)
    then obtain k where "(k, selected) \<in> set ?ms" by auto
    then have "successfulTransactions selected \<le> totalTransactions selected"
      using ok unfolding counts_ok_def by (auto simp: list_all_iff)
    then show ?thesis
      using ok Cons unfolding counts_ok_def selectOptimalSubaccount_def
      by (auto simp: Let_def intro!: list_all_Map_set)
  qed
qed

section \<open>Properties of the encryption helpers\<close>

text \<open>
  With primitives that satisfy \<open>crypto_laws\<close> and an IV whose first 16 characters
  (after padding) are ASCII, decrypting an encrypted string gives the string back: the
  formatted key always has 32 bytes, and such an IV is formatted to 16 bytes.
\<close>

lemma utf8_encode_ascii_length:
  "\<forall>c \<in> set s. (of_char c :: nat) < 128 \<Longrightarrow> length (utf8_encode s) = length s"
  by (induction s) (simp_all add: utf8_encode_def utf8_char_def)

lemma unat_byte_less: "unat (b :: byte) < 256"
  using unsigned_less [of b, where ?'a = nat] by simp

lemma hex_digit_ascii: "d < 16 \<Longrightarrow> (of_char (hex_digit d) :: nat) < 128"
  by (simp add: hex_digit_def)

lemma hex_byte_ascii: "\<forall>c \<in> set (hex_byte b). (of_char c :: nat) < 128"
proof -
  have "unat b div 16 < 16" using unat_byte_less [of b] by arith
  moreover have "unat b mod 16 < 16" by simp
  ultimately show ?thesis by (simp add: hex_byte_def hex_digit_ascii)
qed

lemma hex_ascii: "\<forall>c \<in> set (hex bs). (of_char c :: nat) < 128"
  using hex_byte_ascii by (auto simp: hex_def)

lemma length_hex: "length (hex bs) = 2 * length bs"
  by (induction bs) (simp_all add: hex_def hex_byte_def)

lemma formattedKey_length:
  assumes "length (sha256 L (utf8_encode key)) = 32"
  shows "length (formattedKey L key) = 32"
proof -
  have "\<forall>c \<in> set (take 32 (hex (sha256 L (utf8_encode key)))). (of_char c :: nat) < 128"
    using hex_ascii by (meson in_set_takeD)
  then have "length (formattedKey L key) = length (take 32 (hex (sha256 L (utf8_encode key))))"
    unfolding formattedKey_def by (rule utf8_encode_ascii_length)
  then show ?thesis using assms by (simp add: length_hex)
qed

lemma formattedIV_length:
  assumes "\<forall>c \<in> set (take 16 (padEnd 16 CHR ''0'' iv)). (of_char c :: nat) < 128"
  shows "length (formattedIV iv) = 16"
proof -
  have "length (formattedIV iv) = length (take 16 (padEnd 16 CHR ''0'' iv))"
    unfolding formattedIV_def using assms by (rule utf8_encode_ascii_length)
  then show ?thesis by (simp add: padEnd_def)
qed

lemma decrypt_encrypt_ascii_iv:
  assumes "crypto_laws L"
    and "\<forall>c \<in> set (take 16 (padEnd 16 CHR ''0'' iv)). (of_char c :: nat) < 128"
  shows "decrypt_encrypt L s key iv = Inr s"
proof -
  have k: "length (formattedKey L key) = 32"
    using assms(1) by (intro formattedKey_length) (simp add: crypto_laws_def)
  have i: "length (formattedIV iv) = 16" using assms(2) by (rule formattedIV_length)
  show ?thesis
    using assms(1) k i
    by (simp add: decrypt_encrypt_def encrypt_def decrypt_def createCipheriv_def crypto_laws_def)
qed

lemma unat8: "n < 256 \<Longrightarrow> unat (of_nat n :: byte) = n"
  by (simp add: unat_of_nat)

lemma toy_utf8_decode_encode: "toy_utf8_decode (utf8_encode s) = s"
proof (induction s)
  case Nil
  then show ?case by (simp add: utf8_encode_def)
next
  case (Cons c s)
  have lt: "(of_char c :: nat) < 256" by simp
  have enc: "utf8_encode (c # s) = utf8_char c @ utf8_encode s"
    by (simp add: utf8_encode_def)
  show ?case
  proof (cases "(of_char c :: nat) < 128")
    case True
    then show ?thesis using Cons lt
      by (simp add: enc utf8_char_def unat_of_nat)
  next
    case False
    have hi: "(of_char c :: nat) div 64 < 4" using lt by arith
    have b1: "unat (of_nat (192 + (of_char c :: nat) div 64) :: byte) = 192 + of_char c div 64"
      by (rule unat8) (use hi in arith)
    have b2: "unat (of_nat (128 + (of_char c :: nat) mod 64) :: byte) = 128 + of_char c mod 64"
      by (rule unat8) simp
    show ?thesis using Cons False
      by (simp add: enc utf8_char_def Let_def b1 b2 del: of_nat_add)
  qed
qed

lemma unat_byte_mod: "unat (b :: byte) mod 256 = unat b"
  using unat_byte_less [of b] by simp

lemma toy_crypto_laws: "crypto_laws toy_crypto"
  by (simp add: crypto_laws_def toy_crypto_def toy_utf8_decode_encode comp_def unat_of_nat
      unat_byte_mod)

lemma decrypt_encrypt_toy:
  "decrypt_encrypt toy_crypto ''4111111111111111'' ''test-encryption-key'' ''test-encryption-iv''
     = Inr ''4111111111111111''"
  using decrypt_encrypt_ascii_iv [OF toy_crypto_laws, of "''test-encryption-iv''"]
  by (simp add: padEnd_def)

text \<open>
  Claim C4, on the code: with an IV that is the single character U+00E9 (e with an
  acute accent) the padded IV has 16 characters but 17 bytes, \<open>createCipheriv\<close> rejects
  it, and \<open>encrypt\<close> throws \<open>Error('Failed to encrypt data')\<close> for every text and key,
  whatever the primitives are; so decrypting the encrypted text does not give the text
  back.
\<close>

theorem encrypt_iv_outside_ascii:
  "length (formattedIV [CHR 0xE9]) = 17 \<and>
   encrypt L s key [CHR 0xE9] = Inl (Error ''Failed to encrypt data'') \<and>
   decrypt_encrypt L s key [CHR 0xE9] = Inl (Error ''Failed to encrypt data'')"
proof -
  have len: "length (formattedIV [CHR 0xE9]) = 17"
    by (simp add: formattedIV_def padEnd_def utf8_encode_def utf8_char_def)
  then have "encrypt L s key [CHR 0xE9] = Inl (Error ''Failed to encrypt data'')"
    by (simp add: encrypt_def createCipheriv_def)
  with len show ?thesis by (simp add: decrypt_encrypt_def)
qed

end
